theory Spec2Isabelle
  imports Main "HOL-Library.Word" "HOL-Library.Signed_Division"
begin

section \<open>Machine integers and errors\<close>

text \<open>
  Go's \<open>int\<close> (on the 64-bit platforms the tool is built for) and \<open>time.Duration\<close>
  (an \<open>int64\<close> count of nanoseconds) are 64-bit two's complement values; \<open>int32\<close> is the
  type of \<open>pgxpool.Config.MaxConns\<close>. Comparisons in the source are signed (\<open><s\<close>),
  the conversion \<open>int32(x)\<close> keeps the low 32 bits, and \<open>/\<close> truncates towards zero.
\<close>

type_synonym go_int = "64 word"
type_synonym duration = "64 word"
type_synonym int32 = "32 word"

definition go_div :: "go_int \<Rightarrow> go_int \<Rightarrow> go_int" where
  "go_div a b = word_of_int (sint a sdiv sint b)"

definition to_int32 :: "go_int \<Rightarrow> int32" where
  "to_int32 x = ucast x"

text \<open>
  Every error value of the program. The first five are built by \<open>validateConfig\<close>;
  \<open>Canceled\<close> and \<open>DeadlineExceeded\<close> are the two values of \<open>ctx.Err()\<close>;
  \<open>External n\<close> is an error returned by a collaborator (pool, driver, URL or JSON
  library), opaque to this program; \<open>Wrap p e\<close> is \<open>fmt.Errorf("p: %w", e)\<close>.
\<close>

datatype error =
    ErrDSNRequired
  | ErrIterations go_int
  | ErrTimeout duration
  | ErrReaderMax go_int
  | ErrConcurrency go_int go_int
  | Canceled
  | DeadlineExceeded
  | External nat
  | Wrap string error

section \<open>Configuration\<close>

definition defaultIterations :: go_int where "defaultIterations = 1000"
definition defaultTimeout :: duration where "defaultTimeout = 5 * 60 * 1000000000"
definition defaultReaderMaxConns :: go_int where "defaultReaderMaxConns = 12"
definition defaultWriterSleep :: duration where "defaultWriterSleep = 50 * 1000000"
definition defaultReaderSleep :: duration where "defaultReaderSleep = 50 * 1000000"
definition defaultConcurrency :: go_int where "defaultConcurrency = 1"

record Config =
  Iterations :: go_int
  Timeout :: duration
  ReaderMax :: go_int
  WriterMax :: go_int
  ReaderSleep :: duration
  WriterSleep :: duration
  ReaderConc :: go_int
  WriterConc :: go_int
  DSN :: string

text \<open>
  The command line after a successful \<open>flag.Parse()\<close>: for each registered flag, the
  value given for it, or \<open>None\<close> when the flag does not occur. Every flag is registered
  with the default 0, which is what its variable holds when the flag is absent.
\<close>

record CmdLine =
  flag_i :: "go_int option"
  flag_iterations :: "go_int option"
  flag_t :: "duration option"
  flag_timeout :: "duration option"
  flag_r :: "go_int option"
  flag_reader_max_conns :: "go_int option"
  flag_w :: "go_int option"
  flag_writer_max_conns :: "go_int option"
  flag_rs :: "duration option"
  flag_reader_sleep :: "duration option"
  flag_ws :: "duration option"
  flag_writer_sleep :: "duration option"
  flag_reader_conc :: "go_int option"
  flag_writer_conc :: "go_int option"

definition flag_var :: "64 word \<Rightarrow> 64 word option \<Rightarrow> 64 word" where
  "flag_var dflt given = (case given of None \<Rightarrow> dflt | Some v \<Rightarrow> v)"

text \<open>
  \<open>parseFlags\<close>; the second argument is the string \<open>os.Getenv("DATABASE_URL")\<close>
  returns, which is empty when the variable is not set.
\<close>

definition parseFlags :: "CmdLine \<Rightarrow> string \<Rightarrow> Config" where
  "parseFlags cl database_url =
    (let itersShort = flag_var 0 (flag_i cl);
         itersLong = flag_var 0 (flag_iterations cl);
         timeoutShort = flag_var 0 (flag_t cl);
         timeoutLong = flag_var 0 (flag_timeout cl);
         readerShort = flag_var 0 (flag_r cl);
         readerLong = flag_var 0 (flag_reader_max_conns cl);
         writerShort = flag_var 0 (flag_w cl);
         writerLong = flag_var 0 (flag_writer_max_conns cl);
         readerSleepShort = flag_var 0 (flag_rs cl);
         readerSleepLong = flag_var 0 (flag_reader_sleep cl);
         writerSleepShort = flag_var 0 (flag_ws cl);
         writerSleepLong = flag_var 0 (flag_writer_sleep cl);
         readerConc = flag_var 0 (flag_reader_conc cl);
         writerConc = flag_var 0 (flag_writer_conc cl);
         cfg = \<lparr>Iterations = defaultIterations,
                Timeout = defaultTimeout,
                ReaderMax = defaultReaderMaxConns,
                WriterMax = 0,
                ReaderSleep = defaultReaderSleep,
                WriterSleep = defaultWriterSleep,
                ReaderConc = defaultConcurrency,
                WriterConc = defaultConcurrency,
                DSN = database_url\<rparr>;
         cfg = (if 0 <s itersLong then cfg\<lparr>Iterations := itersLong\<rparr>
                else if 0 <s itersShort then cfg\<lparr>Iterations := itersShort\<rparr> else cfg);
         cfg = (if 0 <s timeoutLong then cfg\<lparr>Timeout := timeoutLong\<rparr>
                else if 0 <s timeoutShort then cfg\<lparr>Timeout := timeoutShort\<rparr> else cfg);
         cfg = (if 0 <s readerLong then cfg\<lparr>ReaderMax := readerLong\<rparr>
                else if 0 <s readerShort then cfg\<lparr>ReaderMax := readerShort\<rparr> else cfg);
         cfg = (if 0 <s writerLong then cfg\<lparr>WriterMax := writerLong\<rparr>
                else if 0 <s writerShort then cfg\<lparr>WriterMax := writerShort\<rparr> else cfg);
         cfg = (if 0 <s readerSleepLong then cfg\<lparr>ReaderSleep := readerSleepLong\<rparr>
                else if 0 <s readerSleepShort then cfg\<lparr>ReaderSleep := readerSleepShort\<rparr> else cfg);
         cfg = (if 0 <s writerSleepLong then cfg\<lparr>WriterSleep := writerSleepLong\<rparr>
                else if 0 <s writerSleepShort then cfg\<lparr>WriterSleep := writerSleepShort\<rparr> else cfg);
         cfg = (if 0 <s readerConc then cfg\<lparr>ReaderConc := readerConc\<rparr> else cfg);
         cfg = (if 0 <s writerConc then cfg\<lparr>WriterConc := writerConc\<rparr> else cfg)
     in cfg)"

definition validateConfig :: "Config \<Rightarrow> error option" where
  "validateConfig cfg =
    (if DSN cfg = [] then Some ErrDSNRequired
     else if Iterations cfg \<le>s 0 then Some (ErrIterations (Iterations cfg))
     else if Timeout cfg \<le>s 0 then Some (ErrTimeout (Timeout cfg))
     else if ReaderMax cfg \<le>s 0 then Some (ErrReaderMax (ReaderMax cfg))
     else if ReaderConc cfg \<le>s 0 \<or> WriterConc cfg \<le>s 0
       then Some (ErrConcurrency (ReaderConc cfg) (WriterConc cfg))
     else None)"

definition deriveWriterMax :: "go_int \<Rightarrow> go_int \<Rightarrow> int32" where
  "deriveWriterMax readerMax writerMax =
    (if 0 <s writerMax then to_int32 writerMax
     else let wm = go_div readerMax 3;
              wm = (if wm <s 1 then 1 else wm)
          in to_int32 wm)"

section \<open>Log rendering of the connection descriptor\<close>

text \<open>
  \<open>net/url\<close> is a library: its parser is a parameter of the model, a function from the
  DSN to an error or the parsed \<open>URL\<close>, whose \<open>User\<close> field is nil or holds the user
  name and the password.
\<close>

record Userinfo =
  username :: string
  password :: string
  passwordSet :: bool

record URL =
  Scheme :: string
  Opaque :: string
  User :: "Userinfo option"
  Host :: string
  Path :: string
  RawQuery :: string
  Fragment :: string

definition redactedDSNInfo :: "(string \<Rightarrow> error + URL) \<Rightarrow> string \<Rightarrow> string" where
  "redactedDSNInfo url_Parse dsn =
    (case url_Parse dsn of
       Inl err \<Rightarrow> ''<invalid dsn>''
     | Inr u \<Rightarrow>
        (let host = Host u;
             db = Path u;
             user = (case User u of None \<Rightarrow> [] | Some ui \<Rightarrow> username ui)
         in ''host='' @ host @ '' db='' @ db @ '' user='' @ user))"

text \<open>Two parsed descriptors that differ at most in the password component.\<close>

definition same_but_password :: "URL \<Rightarrow> URL \<Rightarrow> bool" where
  "same_but_password u v \<longleftrightarrow>
     Scheme u = Scheme v \<and> Opaque u = Opaque v \<and> Host u = Host v \<and> Path u = Path v \<and>
     RawQuery u = RawQuery v \<and> Fragment u = Fragment v \<and>
     map_option username (User u) = map_option username (User v)"

section \<open>Query tracer\<close>

text \<open>
  \<open>strings.Join\<close>, and \<open>safeArgs\<close> with its loop over the indices of \<open>args\<close>;
  \<open>json.Marshal\<close> is a parameter returning an error or the encoding.
\<close>

fun strings_Join :: "string list \<Rightarrow> string \<Rightarrow> string" where
  "strings_Join [] sep = []"
| "strings_Join [x] sep = x"
| "strings_Join (x # y # ys) sep = x @ sep @ strings_Join (y # ys) sep"

function safeArgs_loop ::
  "('a \<Rightarrow> error + string) \<Rightarrow> 'a list \<Rightarrow> nat \<Rightarrow> string list \<Rightarrow> string list" where
  "safeArgs_loop json_Marshal args i vals =
    (if i < length args then
       (case json_Marshal (args ! i) of
          Inl err \<Rightarrow> safeArgs_loop json_Marshal args (i + 1) (vals[i := ''<unmarshalable>''])
        | Inr b \<Rightarrow> safeArgs_loop json_Marshal args (i + 1) (vals[i := b]))
     else vals)"
  by pat_completeness auto
termination
  by (relation "measure (\<lambda>(m, args, i, vals). length args - i)") auto

definition safeArgs_vals :: "('a \<Rightarrow> error + string) \<Rightarrow> 'a list \<Rightarrow> string list" where
  "safeArgs_vals json_Marshal args =
     safeArgs_loop json_Marshal args 0 (replicate (length args) [])"

definition safeArgs :: "('a \<Rightarrow> error + string) \<Rightarrow> 'a list \<Rightarrow> string" where
  "safeArgs json_Marshal args =
     ''['' @ strings_Join (safeArgs_vals json_Marshal args) '', '' @ '']''"

text \<open>
  The rendering of one argument in the words of the specification: its JSON encoding,
  or the fixed marker when it cannot be marshaled.
\<close>

definition render_arg :: "('a \<Rightarrow> error + string) \<Rightarrow> 'a \<Rightarrow> string" where
  "render_arg json_Marshal a =
     (case json_Marshal a of Inl err \<Rightarrow> ''<unmarshalable>'' | Inr b \<Rightarrow> b)"

text \<open>
  A \<open>*pgx.Conn\<close> is nil or a connection whose \<open>PgConn().Conn()\<close> is nil or a
  \<open>net.Conn\<close>, whose \<open>RemoteAddr()\<close> is nil or a \<open>net.Addr\<close>. The dynamic type of the
  address is \<open>*net.TCPAddr\<close> or something else; each carries what its \<open>String()\<close>
  method returns. A non-nil \<open>*pgx.Conn\<close> has a non-nil \<open>PgConn()\<close>, as every connection
  pgx hands to a tracer has.
\<close>

datatype net_Addr = TCPAddr string | OtherAddr string

record net_Conn =
  RemoteAddr :: "net_Addr option"

record pgx_Conn =
  PgConn_Conn :: "net_Conn option"

definition safeRemoteAddr :: "pgx_Conn option \<Rightarrow> string" where
  "safeRemoteAddr conn =
    (case conn of
       None \<Rightarrow> ''<nil>''
     | Some c \<Rightarrow>
        (case PgConn_Conn c of
           None \<Rightarrow> ''<nil>''
         | Some nc \<Rightarrow>
            (case RemoteAddr nc of
               None \<Rightarrow> ''<nil>''
             | Some (TCPAddr s) \<Rightarrow> s
             | Some (OtherAddr s) \<Rightarrow> ''<remote>'')))"

section \<open>The concurrent workload\<close>

text \<open>
  The reader and the writer are goroutines of one \<open>errgroup\<close> \<open>g\<close> with context
  \<open>gctx\<close>; every round of a stream launches its invocations in a fresh errgroup
  \<open>grp\<close> and waits for them. The model is an interleaving semantics: a state of the
  whole workload, and a step function that takes the state and one action of the
  scheduler or of the outside world. An action that is not enabled in a state leaves it
  unchanged, so every list of actions is a run, and the runs of the program are the lists
  of actions.

  What the libraries do is written as their documentation states it:
  \<^item> \<open>errgroup.Group.Go\<close>: the first call of the group that returns a non-nil error
    stores it and cancels the group's context;
  \<open>Wait\<close> blocks until all calls launched with \<open>Go\<close> have returned, and returns the
    stored error;
  \<^item> \<open>context\<close>: \<open>Err()\<close> is nil until the context is done, then \<open>Canceled\<close> or
    \<open>DeadlineExceeded\<close>, and never changes afterwards;
  \<^item> \<open>select\<close>: blocks until one of its cases can proceed; when several can, any of them
    may be chosen.
\<close>

datatype sid = Reader | Writer

datatype query_result = QOk nat | QErr error

datatype event =
    LogConfig go_int duration go_int go_int duration duration go_int go_int string
  | LogFatal error
  | CallNewNodeHealthChecker
  | GoPoll
  | CancelPoll
  | CallNewRetryPool string int32
  | ClosePool string
  | LogStarting go_int duration
  | LogStarted sid
  | LogEnsuringTable
  | LogCtxDone sid error
  | LogPing nat nat
  | LogUpsertOk nat
  | LogQueryError sid error
  | LogBatchError sid error
  | LogDone sid
  | LogWorkloadComplete

datatype phase =
    AtStart
  | AtDDL
  | AtCheck
  | AtSpawn
  | AtWait
  | AtSleep
  | Finished "error option"

text \<open>
  The state of one stream: where its goroutine stands, the loop variables \<open>i\<close> and
  \<open>j\<close>, the invocations of the current round that were launched and have not returned,
  and the error stored in the round's \<open>grp\<close>. Three fields only observe the run: the
  number of rounds begun, the number of invocations of the current round that returned,
  and, for every \<open>grp.Wait()\<close> that returned, how many invocations of its round had
  returned by then.
\<close>

record stream =
  phase :: phase
  round_i :: nat
  spawn_j :: nat
  pending :: nat
  grp_err :: "error option"
  started :: nat
  returned :: nat
  cleared :: "nat list"

record world =
  gctx_err :: "error option"
  g_err :: "error option"
  rd :: stream
  wr :: stream
  wlog :: "event list"

datatype action =
    Tick sid
  | DDLReturns "error option"
  | QueryReturns sid query_result
  | TimerFires sid
  | Deadline

definition init_stream :: stream where
  "init_stream = \<lparr>phase = AtStart, round_i = 0, spawn_j = 0, pending = 0, grp_err = None,
                   started = 0, returned = 0, cleared = []\<rparr>"

definition init_world :: world where
  "init_world = \<lparr>gctx_err = None, g_err = None, rd = init_stream, wr = init_stream,
                  wlog = []\<rparr>"

fun get_stream :: "sid \<Rightarrow> world \<Rightarrow> stream" where
  "get_stream Reader w = rd w"
| "get_stream Writer w = wr w"

fun set_stream :: "sid \<Rightarrow> stream \<Rightarrow> world \<Rightarrow> world" where
  "set_stream Reader s w = w\<lparr>rd := s\<rparr>"
| "set_stream Writer s w = w\<lparr>wr := s\<rparr>"

definition emit :: "event list \<Rightarrow> world \<Rightarrow> world" where
  "emit es w = w\<lparr>wlog := wlog w @ es\<rparr>"

fun conc :: "Config \<Rightarrow> sid \<Rightarrow> go_int" where
  "conc cfg Reader = ReaderConc cfg"
| "conc cfg Writer = WriterConc cfg"

text \<open>
  The function a stream passes to \<open>grp.Go\<close>, given what \<open>QueryRowFunc\<close> returned: the
  lines it logs and the error it returns to \<open>grp\<close>.
\<close>

fun invocation :: "sid \<Rightarrow> nat \<Rightarrow> query_result \<Rightarrow> event list \<times> error option" where
  "invocation Reader i (QOk now) = ([LogPing (i + 1) now], None)"
| "invocation Reader i (QErr err) = ([LogQueryError Reader err], None)"
| "invocation Writer i (QErr err) = ([LogQueryError Writer err], None)"
| "invocation Writer i (QOk ts) = ([LogUpsertOk ts], None)"

text \<open>A goroutine of \<open>g\<close> returns \<open>r\<close>: the first non-nil error is kept and cancels \<open>gctx\<close>.\<close>

definition g_return :: "sid \<Rightarrow> error option \<Rightarrow> world \<Rightarrow> world" where
  "g_return sd r w =
    (let w = set_stream sd ((get_stream sd w)\<lparr>phase := Finished r\<rparr>) w
     in case r of
          None \<Rightarrow> w
        | Some e \<Rightarrow>
           (if g_err w = None
            then w\<lparr>g_err := Some e,
                   gctx_err := (if gctx_err w = None then Some Canceled else gctx_err w)\<rparr>
            else w))"

text \<open>The goroutine of stream \<open>sd\<close> runs its next statement, if it is not blocked.\<close>

definition tick :: "Config \<Rightarrow> sid \<Rightarrow> world \<Rightarrow> world" where
  "tick cfg sd w =
    (let s = get_stream sd w in
     case phase s of
       AtStart \<Rightarrow>
        (case sd of
           Reader \<Rightarrow> emit [LogStarted Reader] (set_stream sd (s\<lparr>phase := AtCheck, round_i := 0\<rparr>) w)
         | Writer \<Rightarrow> emit [LogStarted Writer, LogEnsuringTable] (set_stream sd (s\<lparr>phase := AtDDL\<rparr>) w))
     | AtDDL \<Rightarrow> w
     | AtCheck \<Rightarrow>
        (if int (round_i s) < sint (Iterations cfg) then
           (case gctx_err w of
              Some e \<Rightarrow> g_return sd (Some e) (emit [LogCtxDone sd e] w)
            | None \<Rightarrow>
               set_stream sd (s\<lparr>phase := AtSpawn, spawn_j := 0, pending := 0, grp_err := None,
                                started := started s + 1, returned := 0\<rparr>) w)
         else g_return sd None (emit [LogDone sd] w))
     | AtSpawn \<Rightarrow>
        (if int (spawn_j s) < sint (conc cfg sd)
         then set_stream sd (s\<lparr>spawn_j := spawn_j s + 1, pending := pending s + 1\<rparr>) w
         else set_stream sd (s\<lparr>phase := AtWait\<rparr>) w)
     | AtWait \<Rightarrow>
        (if pending s = 0 then
           emit (case grp_err s of Some err \<Rightarrow> [LogBatchError sd err] | None \<Rightarrow> [])
             (set_stream sd (s\<lparr>phase := AtSleep, cleared := cleared s @ [returned s]\<rparr>) w)
         else w)
     | AtSleep \<Rightarrow>
        (case gctx_err w of
           Some e \<Rightarrow> g_return sd (Some e) w
         | None \<Rightarrow> w)
     | Finished r \<Rightarrow> w)"

text \<open>The writer's schema statement returns.\<close>

definition ddl_returns :: "error option \<Rightarrow> world \<Rightarrow> world" where
  "ddl_returns r w =
    (if phase (wr w) = AtDDL then
       (case r of
          Some err \<Rightarrow> g_return Writer (Some (Wrap ''writer DDL'' err)) w
        | None \<Rightarrow> set_stream Writer ((wr w)\<lparr>phase := AtCheck, round_i := 0\<rparr>) w)
     else w)"

text \<open>One launched invocation of the current round of \<open>sd\<close> gets its query result and returns.\<close>

definition query_returns :: "sid \<Rightarrow> query_result \<Rightarrow> world \<Rightarrow> world" where
  "query_returns sd qr w =
    (let s = get_stream sd w in
     if (phase s = AtSpawn \<or> phase s = AtWait) \<and> 0 < pending s then
       (case invocation sd (round_i s) qr of
          (lines, ret) \<Rightarrow>
            emit lines
              (set_stream sd
                 (s\<lparr>pending := pending s - 1, returned := returned s + 1,
                    grp_err := (if grp_err s = None then ret else grp_err s)\<rparr>) w))
     else w)"

text \<open>The \<open>time.After\<close> case of the select that follows the barrier is taken.\<close>

definition timer_fires :: "sid \<Rightarrow> world \<Rightarrow> world" where
  "timer_fires sd w =
    (let s = get_stream sd w in
     if phase s = AtSleep then set_stream sd (s\<lparr>phase := AtCheck, round_i := round_i s + 1\<rparr>) w
     else w)"

text \<open>The timeout of \<open>ctxRun\<close>, the parent of \<open>gctx\<close>, expires.\<close>

definition deadline :: "world \<Rightarrow> world" where
  "deadline w = (if gctx_err w = None then w\<lparr>gctx_err := Some DeadlineExceeded\<rparr> else w)"

fun step :: "Config \<Rightarrow> world \<Rightarrow> action \<Rightarrow> world" where
  "step cfg w (Tick sd) = tick cfg sd w"
| "step cfg w (DDLReturns r) = ddl_returns r w"
| "step cfg w (QueryReturns sd qr) = query_returns sd qr w"
| "step cfg w (TimerFires sd) = timer_fires sd w"
| "step cfg w Deadline = deadline w"

definition exec :: "Config \<Rightarrow> world \<Rightarrow> action list \<Rightarrow> world" where
  "exec cfg w acts = foldl (step cfg) w acts"

text \<open>The same action with the result of a query forgotten.\<close>

fun forget_result :: "action \<Rightarrow> action" where
  "forget_result (QueryReturns sd qr) = QueryReturns sd (QOk 0)"
| "forget_result a = a"

definition is_finished :: "stream \<Rightarrow> bool" where
  "is_finished s = (case phase s of Finished r \<Rightarrow> True | _ \<Rightarrow> False)"

section \<open>The orchestrator and the entry point\<close>

text \<open>
  What the collaborators answer in one execution: the outcomes of
  \<open>pgxpool.ParseConfig\<close>, \<open>NewNodeHealthChecker\<close> and the two \<open>NewRetryPool\<close> calls,
  the URL parser, and the actions observed while the workload runs.
\<close>

record env =
  env_url_Parse :: "string \<Rightarrow> error + URL"
  env_ParseConfig :: "error option"
  env_NewNodeHealthChecker :: "error option"
  env_NewRetryPool_reader :: "error option"
  env_NewRetryPool_writer :: "error option"
  env_schedule :: "action list"

text \<open>
  \<open>Return r\<close>: the function returned \<open>r\<close>; \<open>Exit n\<close>: the process ended with status
  \<open>n\<close>; \<open>Running\<close>: \<open>g.Wait()\<close> has not returned at the end of the observed actions.
\<close>

datatype outcome = Return "error option" | Exit nat | Running

definition logged_writer_max :: "Config \<Rightarrow> go_int" where
  "logged_writer_max cfg =
     (if 0 <s WriterMax cfg then WriterMax cfg else go_div (ReaderMax cfg + 2) 3)"

definition run :: "env \<Rightarrow> Config \<Rightarrow> event list \<times> outcome" where
  "run ev cfg =
    (let es = [LogConfig (Iterations cfg) (Timeout cfg) (ReaderMax cfg) (logged_writer_max cfg)
                 (ReaderSleep cfg) (WriterSleep cfg) (ReaderConc cfg) (WriterConc cfg)
                 (redactedDSNInfo (env_url_Parse ev) (DSN cfg))]
     in case env_ParseConfig ev of
          Some err \<Rightarrow> (es @ [LogFatal (Wrap ''parse config'' err)], Exit 1)
        | None \<Rightarrow>
     (let es = es @ [CallNewNodeHealthChecker]
      in case env_NewNodeHealthChecker ev of
           Some err \<Rightarrow> (es, Return (Some (Wrap ''create health tracker'' err)))
         | None \<Rightarrow>
     (let es = es @ [GoPoll, CallNewRetryPool ''reader'' (to_int32 (ReaderMax cfg))]
      in case env_NewRetryPool_reader ev of
           Some err \<Rightarrow> (es @ [CancelPoll], Return (Some (Wrap ''create reader pool'' err)))
         | None \<Rightarrow>
     (let es = es @ [CallNewRetryPool ''writer'' (deriveWriterMax (ReaderMax cfg) (WriterMax cfg))]
      in case env_NewRetryPool_writer ev of
           Some err \<Rightarrow>
             (es @ [ClosePool ''reader'', CancelPoll],
              Return (Some (Wrap ''create writer pool'' err)))
         | None \<Rightarrow>
     (let w = exec cfg init_world (env_schedule ev);
          es = es @ [LogStarting (Iterations cfg) (Timeout cfg)] @ wlog w;
          defers = [ClosePool ''writer'', ClosePool ''reader'', CancelPoll]
      in if is_finished (rd w) \<and> is_finished (wr w) then
           (case g_err w of
              Some err \<Rightarrow> (es @ defers, Return (Some err))
            | None \<Rightarrow> (es @ [LogWorkloadComplete] @ defers, Return None))
         else (es, Running))))))"

definition main :: "env \<Rightarrow> CmdLine \<Rightarrow> string \<Rightarrow> event list \<times> outcome" where
  "main ev cl database_url =
    (let cfg = parseFlags cl database_url
     in case validateConfig cfg of
          Some err \<Rightarrow> ([LogFatal err], Exit 1)
        | None \<Rightarrow>
           (case run ev cfg of
              (es, Return (Some err)) \<Rightarrow> (es @ [LogFatal err], Exit 1)
            | (es, Return None) \<Rightarrow> (es, Exit 0)
            | (es, out) \<Rightarrow> (es, out)))"

section \<open>Definitions used to state the properties\<close>

text \<open>
  The merge policy in the words of the specification: a form counts when it is given
  and positive; the long form is taken when it counts, otherwise the short form when it
  counts, otherwise the default.
\<close>

definition positive_value :: "64 word option \<Rightarrow> 64 word option" where
  "positive_value x = (case x of None \<Rightarrow> None | Some v \<Rightarrow> if 0 <s v then Some v else None)"

definition merge_forms :: "64 word option \<Rightarrow> 64 word option \<Rightarrow> 64 word \<Rightarrow> 64 word" where
  "merge_forms long short dflt =
     (case positive_value long of
        Some v \<Rightarrow> v
      | None \<Rightarrow> (case positive_value short of Some v \<Rightarrow> v | None \<Rightarrow> dflt))"

text \<open>The two errors a done context reports.\<close>

definition ctx_error :: "error \<Rightarrow> bool" where
  "ctx_error x \<longleftrightarrow> x = Canceled \<or> x = DeadlineExceeded"

text \<open>The number \<open>C\<close> of invocations a round of a stream launches.\<close>

definition fanout :: "Config \<Rightarrow> sid \<Rightarrow> nat" where
  "fanout cfg sd = nat (sint (conc cfg sd))"

text \<open>
  The invariant of one stream: how the observing fields relate to the loop variables at
  each point of the goroutine.
\<close>

definition stream_inv :: "Config \<Rightarrow> sid \<Rightarrow> stream \<Rightarrow> bool" where
  "stream_inv cfg sd s \<longleftrightarrow>
     list_all (\<lambda>n. n = fanout cfg sd) (cleared s) \<and> grp_err s = None \<and>
     started s \<le> length (cleared s) + 1 \<and>
     (case phase s of
        AtStart \<Rightarrow> started s = 0 \<and> cleared s = [] \<and> pending s = 0
      | AtDDL \<Rightarrow> started s = 0 \<and> cleared s = [] \<and> pending s = 0
      | AtCheck \<Rightarrow> started s = round_i s \<and> length (cleared s) = round_i s \<and> pending s = 0
      | AtSpawn \<Rightarrow> started s = round_i s + 1 \<and> length (cleared s) = round_i s \<and>
                    returned s + pending s = spawn_j s \<and> spawn_j s \<le> fanout cfg sd
      | AtWait \<Rightarrow> started s = round_i s + 1 \<and> length (cleared s) = round_i s \<and>
                   returned s + pending s = spawn_j s \<and> spawn_j s = fanout cfg sd
      | AtSleep \<Rightarrow> started s = round_i s + 1 \<and> length (cleared s) = round_i s + 1 \<and>
                    pending s = 0
      | Finished r \<Rightarrow> pending s = 0)"

text \<open>The state of the workload with the log forgotten.\<close>

definition without_log :: "world \<Rightarrow> world" where
  "without_log w = w\<lparr>wlog := []\<rparr>"

text \<open>An error built by the writer from a failure of its schema statement.\<close>

definition is_ddl_error :: "error \<Rightarrow> bool" where
  "is_ddl_error x = (case x of Wrap p e \<Rightarrow> p = ''writer DDL'' | _ \<Rightarrow> False)"

text \<open>
  Three invariants on the errors of a run: the context of \<open>g\<close> is done as soon as \<open>g\<close>
  holds an error, and its error is one of the two context errors; the error \<open>g\<close> holds is
  a context error or a schema error; a stream that returned an error returned the error
  of the context or, for the writer, a schema error.
\<close>

definition gctx_inv :: "world \<Rightarrow> bool" where
  "gctx_inv w = (case gctx_err w of None \<Rightarrow> g_err w = None | Some c \<Rightarrow> ctx_error c)"

definition g_err_inv :: "world \<Rightarrow> bool" where
  "g_err_inv w = (case g_err w of None \<Rightarrow> True | Some x \<Rightarrow> ctx_error x \<or> is_ddl_error x)"

definition returns_ok :: "sid \<Rightarrow> world \<Rightarrow> bool" where
  "returns_ok sd w =
     (case phase (get_stream sd w) of
        Finished (Some x) \<Rightarrow> gctx_err w = Some x \<or> (sd = Writer \<and> is_ddl_error x)
      | _ \<Rightarrow> True)"

subsection \<open>Concrete inputs\<close>

text \<open>A command line without flags.\<close>

definition no_flags :: CmdLine where
  "no_flags = \<lparr>flag_i = None, flag_iterations = None, flag_t = None, flag_timeout = None,
     flag_r = None, flag_reader_max_conns = None, flag_w = None, flag_writer_max_conns = None,
     flag_rs = None, flag_reader_sleep = None, flag_ws = None, flag_writer_sleep = None,
     flag_reader_conc = None, flag_writer_conc = None\<rparr>"

text \<open>
  What \<open>url.Parse\<close> returns on four descriptors; every other input is rejected by this
  table. Two are URLs that differ in the password only. Two are in the keyword/value
  form, which \<open>pgxpool.ParseConfig\<close> accepts as well, and differ in the password only:
  such a string has no scheme (its first character that is not a letter is \<open>=\<close>), no
  \<open>#\<close>, \<open>?\<close> or \<open>%\<close>, does not start with a slash and has no colon, so the parser
  returns it whole as the \<open>Path\<close> of a URL whose other fields are empty.
\<close>

definition sample_url :: "string \<Rightarrow> URL" where
  "sample_url pw =
     \<lparr>Scheme = ''postgres'', Opaque = [],
      User = Some \<lparr>username = ''alice'', password = pw, passwordSet = True\<rparr>,
      Host = ''db:26257'', Path = ''/app'', RawQuery = [], Fragment = []\<rparr>"

definition path_only_url :: "string \<Rightarrow> URL" where
  "path_only_url p =
     \<lparr>Scheme = [], Opaque = [], User = None, Host = [], Path = p, RawQuery = [],
      Fragment = []\<rparr>"

definition sample_url_Parse :: "string \<Rightarrow> error + URL" where
  "sample_url_Parse dsn =
     (if dsn = ''postgres://alice:secret1@db:26257/app'' then Inr (sample_url ''secret1'')
      else if dsn = ''postgres://alice:hunter2@db:26257/app'' then Inr (sample_url ''hunter2'')
      else if dsn = ''host=db user=alice password=secret1 dbname=app''
        then Inr (path_only_url ''host=db user=alice password=secret1 dbname=app'')
      else if dsn = ''host=db user=alice password=hunter2 dbname=app''
        then Inr (path_only_url ''host=db user=alice password=hunter2 dbname=app'')
      else Inl (External 0))"

text \<open>An execution in which every collaborator succeeds and no action is observed yet.\<close>

definition quiet_env :: env where
  "quiet_env = \<lparr>env_url_Parse = sample_url_Parse, env_ParseConfig = None,
     env_NewNodeHealthChecker = None, env_NewRetryPool_reader = None,
     env_NewRetryPool_writer = None, env_schedule = []\<rparr>"

text \<open>The configuration of a run without flags, and some schedules of the workload.\<close>

definition sample_cfg :: Config where
  "sample_cfg = parseFlags no_flags ''postgres://alice:secret1@db:26257/app''"

text \<open>A run with two reader and three writer invocations per round.\<close>

definition conc_cfg :: Config where
  "conc_cfg = parseFlags (no_flags\<lparr>flag_reader_conc := Some 2, flag_writer_conc := Some 3\<rparr>)
     ''postgres://alice:secret1@db:26257/app''"

text \<open>
  The reader runs its first round: it launches both invocations, one query fails, the
  other succeeds, and the barrier releases.
\<close>

definition reader_round :: "action list" where
  "reader_round =
     [Tick Reader, Tick Reader, Tick Reader, Tick Reader, Tick Reader,
      QueryReturns Reader (QErr (External 7)), QueryReturns Reader (QOk 5), Tick Reader]"

text \<open>Then the timer fires and the second round launches both invocations.\<close>

definition reader_relaunch :: "action list" where
  "reader_relaunch = [TimerFires Reader, Tick Reader, Tick Reader, Tick Reader, Tick Reader]"

text \<open>
  The writer ensures its table, runs a first round of three invocations, one of which
  fails, and stands at the barrier of its second round with one invocation returned.
\<close>

definition writer_rounds :: "action list" where
  "writer_rounds =
     [Tick Writer, DDLReturns None, Tick Writer, Tick Writer, Tick Writer, Tick Writer,
      Tick Writer, QueryReturns Writer (QOk 1), QueryReturns Writer (QErr (External 9)),
      QueryReturns Writer (QOk 2), Tick Writer, TimerFires Writer, Tick Writer, Tick Writer,
      Tick Writer, Tick Writer, Tick Writer, QueryReturns Writer (QOk 3)]"

text \<open>
  Both streams at the barrier of their second round, each with one invocation returned
  and the others pending.
\<close>

definition both_streams_schedule :: "action list" where
  "both_streams_schedule =
     reader_round @ reader_relaunch @ [QueryReturns Reader (QErr (External 8))] @ writer_rounds"

text \<open>The deadline expires before the reader's first round.\<close>

definition deadline_schedule :: "action list" where
  "deadline_schedule = [Tick Reader, Deadline, Tick Reader]"

text \<open>The writer has issued its schema statement; the reader is at its first check.\<close>

definition ddl_schedule :: "action list" where
  "ddl_schedule = [Tick Writer, Tick Reader]"

section \<open>Configuration: merge policy and validation\<close>

lemma merge_forms_flag_var:
  "(if 0 <s flag_var 0 long then flag_var 0 long
      else if 0 <s flag_var 0 short then flag_var 0 short else dflt) = merge_forms long short dflt"
  by (simp add: merge_forms_def positive_value_def flag_var_def word_sless_alt split: option.splits)

lemma merge_forms_flag_var1:
  "(if 0 <s flag_var 0 long then flag_var 0 long else dflt) = merge_forms long None dflt"
  by (simp add: merge_forms_def positive_value_def flag_var_def word_sless_alt split: option.splits)

lemma merge_forms_nest:
  "merge_forms long None (merge_forms short None dflt) = merge_forms long short dflt"
  by (simp add: merge_forms_def positive_value_def split: option.splits)

text \<open>Each conditional assignment of \<open>parseFlags\<close> is one update of the field.\<close>

lemma override_as_update:
  fixes r :: Config
  shows
  "(if b then r\<lparr>Iterations := x\<rparr> else if c then r\<lparr>Iterations := y\<rparr> else r) =
     Iterations_update (\<lambda>old. if b then x else if c then y else old) r"
  "(if b then r\<lparr>Timeout := x\<rparr> else if c then r\<lparr>Timeout := y\<rparr> else r) =
     Timeout_update (\<lambda>old. if b then x else if c then y else old) r"
  "(if b then r\<lparr>ReaderMax := x\<rparr> else if c then r\<lparr>ReaderMax := y\<rparr> else r) =
     ReaderMax_update (\<lambda>old. if b then x else if c then y else old) r"
  "(if b then r\<lparr>WriterMax := x\<rparr> else if c then r\<lparr>WriterMax := y\<rparr> else r) =
     WriterMax_update (\<lambda>old. if b then x else if c then y else old) r"
  "(if b then r\<lparr>ReaderSleep := x\<rparr> else if c then r\<lparr>ReaderSleep := y\<rparr> else r) =
     ReaderSleep_update (\<lambda>old. if b then x else if c then y else old) r"
  "(if b then r\<lparr>WriterSleep := x\<rparr> else if c then r\<lparr>WriterSleep := y\<rparr> else r) =
     WriterSleep_update (\<lambda>old. if b then x else if c then y else old) r"
  "(if b then r\<lparr>ReaderConc := x\<rparr> else r) =
     ReaderConc_update (\<lambda>old. if b then x else old) r"
  "(if b then r\<lparr>WriterConc := x\<rparr> else r) =
     WriterConc_update (\<lambda>old. if b then x else old) r"
  by simp_all

lemma parseFlags_eq:
  "parseFlags cl d =
     \<lparr>Iterations = merge_forms (flag_iterations cl) (flag_i cl) defaultIterations,
      Timeout = merge_forms (flag_timeout cl) (flag_t cl) defaultTimeout,
      ReaderMax = merge_forms (flag_reader_max_conns cl) (flag_r cl) defaultReaderMaxConns,
      WriterMax = merge_forms (flag_writer_max_conns cl) (flag_w cl) 0,
      ReaderSleep = merge_forms (flag_reader_sleep cl) (flag_rs cl) defaultReaderSleep,
      WriterSleep = merge_forms (flag_writer_sleep cl) (flag_ws cl) defaultWriterSleep,
      ReaderConc = merge_forms (flag_reader_conc cl) None defaultConcurrency,
      WriterConc = merge_forms (flag_writer_conc cl) None defaultConcurrency,
      DSN = d\<rparr>"
  unfolding parseFlags_def override_as_update
  by (simp add: Let_def merge_forms_flag_var merge_forms_flag_var1 merge_forms_nest)

lemma merge_forms_zero:
  "merge_forms (Some 0) short dflt = merge_forms None short dflt"
  "merge_forms long (Some 0) dflt = merge_forms long None dflt"
  by (simp_all add: merge_forms_def positive_value_def split: option.splits)

lemma merge_forms_positive: "0 <s dflt \<Longrightarrow> 0 <s merge_forms long short dflt"
  by (simp add: merge_forms_def positive_value_def split: option.splits if_splits)

lemma merge_forms_nonneg: "0 \<le>s dflt \<Longrightarrow> 0 \<le>s merge_forms long short dflt"
  by (auto simp add: merge_forms_def positive_value_def word_sless_alt word_sle_eq
      split: option.splits if_splits)

lemmas default_defs = defaultIterations_def defaultTimeout_def defaultReaderMaxConns_def
  defaultReaderSleep_def defaultWriterSleep_def defaultConcurrency_def

lemma defaults_positive:
  "0 <s defaultIterations" "0 <s defaultTimeout" "0 <s defaultReaderMaxConns"
  "0 <s defaultReaderSleep" "0 <s defaultWriterSleep" "0 <s defaultConcurrency"
  by (simp_all add: word_sless_alt default_defs)

lemma sle_zero_iff: "(x \<le>s 0) = (\<not> 0 <s x)" for x :: "64 word"
  by (auto simp: word_sless_alt word_sle_eq)

text \<open>
  C5: for each of iterations, timeout, reader-max-conns, writer-max-conns, reader-sleep
  and writer-sleep, the merged configuration holds the long form's value when it is given
  and positive, otherwise the short form's value when that is positive, otherwise the
  default (0, "derive", for writer-max-conns); and giving any of the twelve forms the
  value zero yields the same configuration as not giving it.
\<close>

theorem parseFlags_long_short_default:
  "Iterations (parseFlags cl d) = merge_forms (flag_iterations cl) (flag_i cl) defaultIterations \<and>
   Timeout (parseFlags cl d) = merge_forms (flag_timeout cl) (flag_t cl) defaultTimeout \<and>
   ReaderMax (parseFlags cl d) =
     merge_forms (flag_reader_max_conns cl) (flag_r cl) defaultReaderMaxConns \<and>
   WriterMax (parseFlags cl d) = merge_forms (flag_writer_max_conns cl) (flag_w cl) 0 \<and>
   ReaderSleep (parseFlags cl d) =
     merge_forms (flag_reader_sleep cl) (flag_rs cl) defaultReaderSleep \<and>
   WriterSleep (parseFlags cl d) =
     merge_forms (flag_writer_sleep cl) (flag_ws cl) defaultWriterSleep \<and>
   parseFlags (cl\<lparr>flag_iterations := Some 0\<rparr>) d = parseFlags (cl\<lparr>flag_iterations := None\<rparr>) d \<and>
   parseFlags (cl\<lparr>flag_i := Some 0\<rparr>) d = parseFlags (cl\<lparr>flag_i := None\<rparr>) d \<and>
   parseFlags (cl\<lparr>flag_timeout := Some 0\<rparr>) d = parseFlags (cl\<lparr>flag_timeout := None\<rparr>) d \<and>
   parseFlags (cl\<lparr>flag_t := Some 0\<rparr>) d = parseFlags (cl\<lparr>flag_t := None\<rparr>) d \<and>
   parseFlags (cl\<lparr>flag_reader_max_conns := Some 0\<rparr>) d =
     parseFlags (cl\<lparr>flag_reader_max_conns := None\<rparr>) d \<and>
   parseFlags (cl\<lparr>flag_r := Some 0\<rparr>) d = parseFlags (cl\<lparr>flag_r := None\<rparr>) d \<and>
   parseFlags (cl\<lparr>flag_writer_max_conns := Some 0\<rparr>) d =
     parseFlags (cl\<lparr>flag_writer_max_conns := None\<rparr>) d \<and>
   parseFlags (cl\<lparr>flag_w := Some 0\<rparr>) d = parseFlags (cl\<lparr>flag_w := None\<rparr>) d \<and>
   parseFlags (cl\<lparr>flag_reader_sleep := Some 0\<rparr>) d =
     parseFlags (cl\<lparr>flag_reader_sleep := None\<rparr>) d \<and>
   parseFlags (cl\<lparr>flag_rs := Some 0\<rparr>) d = parseFlags (cl\<lparr>flag_rs := None\<rparr>) d \<and>
   parseFlags (cl\<lparr>flag_writer_sleep := Some 0\<rparr>) d =
     parseFlags (cl\<lparr>flag_writer_sleep := None\<rparr>) d \<and>
   parseFlags (cl\<lparr>flag_ws := Some 0\<rparr>) d = parseFlags (cl\<lparr>flag_ws := None\<rparr>) d"
  by (simp add: parseFlags_eq merge_forms_zero)

text \<open>
  C10: whatever the flags, negative values included, the configuration \<open>parseFlags\<close>
  builds has strictly positive iterations, timeout, reader pool size and concurrencies,
  and non-negative sleeps and writer pool size; so \<open>validateConfig\<close> fails on it exactly
  when the DSN read from \<open>DATABASE_URL\<close> is empty (which is how the program sees an
  unset variable), and then with the DSN error.
\<close>

theorem parseFlags_result_valid:
  "0 <s Iterations (parseFlags cl d) \<and> 0 <s Timeout (parseFlags cl d) \<and>
   0 <s ReaderMax (parseFlags cl d) \<and> 0 <s ReaderConc (parseFlags cl d) \<and>
   0 <s WriterConc (parseFlags cl d) \<and>
   0 \<le>s ReaderSleep (parseFlags cl d) \<and> 0 \<le>s WriterSleep (parseFlags cl d) \<and>
   0 \<le>s WriterMax (parseFlags cl d) \<and>
   validateConfig (parseFlags cl d) = (if d = [] then Some ErrDSNRequired else None)"
proof -
  have nn: "0 \<le>s defaultReaderSleep" "0 \<le>s defaultWriterSleep" "(0::64 word) \<le>s 0"
    by (simp_all add: word_sle_eq default_defs)
  show ?thesis
    by (simp add: parseFlags_eq validateConfig_def sle_zero_iff merge_forms_positive
        merge_forms_nonneg defaults_positive nn)
qed

text \<open>
  C6: \<open>validateConfig\<close> returns an error exactly when the DSN is empty or one of
  iterations, timeout, reader-max-conns, reader-concurrency, writer-concurrency is not
  positive; and when it rejects the configuration \<open>main\<close> has built, the whole execution
  is the one fatal log line of that error followed by exit status 1: nothing of \<open>run\<close>
  (health checker, poller, pools, workload) happens, and nothing is tried again.
\<close>

theorem validateConfig_rejects_before_resources:
  "(validateConfig cfg \<noteq> None) =
     (DSN cfg = [] \<or> sint (Iterations cfg) \<le> 0 \<or> sint (Timeout cfg) \<le> 0 \<or>
      sint (ReaderMax cfg) \<le> 0 \<or> sint (ReaderConc cfg) \<le> 0 \<or> sint (WriterConc cfg) \<le> 0) \<and>
   (validateConfig (parseFlags cl d) = Some err \<longrightarrow> main ev cl d = ([LogFatal err], Exit 1))"
  by (simp add: validateConfig_def word_sle_eq main_def)

theorem validateConfig_rejects_before_resources_witness:
  "validateConfig (parseFlags no_flags []) = Some ErrDSNRequired \<and>
   main quiet_env no_flags [] = ([LogFatal ErrDSNRequired], Exit 1)"
proof -
  have h: "validateConfig (parseFlags no_flags []) = Some ErrDSNRequired"
    by (simp add: parseFlags_eq validateConfig_def)
  with validateConfig_rejects_before_resources
         [of "parseFlags no_flags []" no_flags "[]" ErrDSNRequired quiet_env]
  show ?thesis by simp
qed

text \<open>The pool size derived when writer-max-conns is not set, for reader sizes that fit \<open>int32\<close>.\<close>

lemma sint_of_small:
  "0 \<le> m \<Longrightarrow> m < 2 ^ 31 \<Longrightarrow> sint (word_of_int m :: 64 word) = m"
  "0 \<le> m \<Longrightarrow> m < 2 ^ 31 \<Longrightarrow> sint (ucast (word_of_int m :: 64 word) :: 32 word) = m"
proof -
  assume a: "0 \<le> m" "m < 2 ^ 31"
  then have b: "m < 2 ^ 63" by simp
  show "sint (word_of_int m :: 64 word) = m"
    using a b by (simp add: signed_of_int signed_take_bit_int_eq_self)
  have "take_bit 64 m = m" using a b by (simp add: take_bit_int_eq_self)
  then show "sint (ucast (word_of_int m :: 64 word) :: 32 word) = m"
    using a by (simp add: signed_ucast_eq unsigned_of_int signed_of_int signed_take_bit_int_eq_self)
qed

lemma deriveWriterMax_floor:
  assumes "\<not> 0 <s w" and "0 \<le> sint r" and "sint r < 3 * 2 ^ 31"
  shows "sint (deriveWriterMax r w) = max 1 (sint r div 3)"
proof -
  define q where "q = sint r div 3"
  have q: "0 \<le> q" "q < 2 ^ 31" using assms(2,3) by (simp_all add: q_def)
  have sd: "sint r sdiv 3 = q"
    using assms(2) by (simp add: signed_divide_int_def q_def sgn_if)
  have gd: "go_div r 3 = word_of_int q" by (simp add: go_div_def sd)
  have one: "(1 :: 64 word) = word_of_int 1" by simp
  show ?thesis
  proof (cases "q < 1")
    case True
    then show ?thesis
      using assms(1) q sint_of_small[of q] sint_of_small(2)[of 1]
      by (simp add: deriveWriterMax_def gd to_int32_def word_sless_alt Let_def flip: q_def)
  next
    case False
    then show ?thesis
      using assms(1) q sint_of_small[of q]
      by (simp add: deriveWriterMax_def gd to_int32_def word_sless_alt Let_def flip: q_def)
  qed
qed

text \<open>
  C2: with the flag \<open>-r 4\<close> and no writer-max-conns, the writer pool is created with
  MaxConns 1, which is max(1, floor(4/3)), while the startup log line reports
  writer-max-conns=2, which is (4+2)/3.
\<close>

theorem writer_max_log_differs_from_pool:
  "validateConfig (parseFlags (no_flags\<lparr>flag_r := Some 4\<rparr>)
      ''postgres://alice:secret1@db:26257/app'') = None \<and>
   take 5 (fst (run quiet_env (parseFlags (no_flags\<lparr>flag_r := Some 4\<rparr>)
      ''postgres://alice:secret1@db:26257/app''))) =
     [LogConfig 1000 300000000000 4 2 50000000 50000000 1 1 ''host=db:26257 db=/app user=alice'',
      CallNewNodeHealthChecker, GoPoll,
      CallNewRetryPool ''reader'' 4, CallNewRetryPool ''writer'' 1]"
  by (simp add: parseFlags_eq no_flags_def merge_forms_def positive_value_def word_sless_alt
      word_sle_eq validateConfig_def default_defs run_def quiet_env_def logged_writer_max_def
      deriveWriterMax_def go_div_def signed_divide_int_def to_int32_def redactedDSNInfo_def
      sample_url_Parse_def sample_url_def Let_def exec_def init_world_def init_stream_def
      is_finished_def)

section \<open>Connection descriptor and tracer\<close>

text \<open>
  What holds of the rendering: it is made of the parsed host, path and user name, so
  two accepted descriptors whose parsed forms agree on these are rendered identically.
\<close>

lemma redactedDSNInfo_reads_host_path_user:
  assumes "url_Parse d1 = Inr u1" and "url_Parse d2 = Inr u2" and "same_but_password u1 u2"
  shows "redactedDSNInfo url_Parse d1 = redactedDSNInfo url_Parse d2 \<and>
         redactedDSNInfo url_Parse d1 =
           ''host='' @ Host u1 @ '' db='' @ Path u1 @ '' user='' @
             (case User u1 of None \<Rightarrow> [] | Some ui \<Rightarrow> username ui)"
  using assms
  by (auto simp: redactedDSNInfo_def same_but_password_def split: option.splits)

text \<open>
  C4: for the keyword/value descriptor
  "host=db user=alice password=secret1 dbname=app", which the URL parser accepts as a bare
  path, the rendering is "host= db=" followed by the whole descriptor, password included;
  the descriptor that differs from it in the password only is rendered differently; the
  descriptor passes \<open>validateConfig\<close>, and the rendering is in the first line \<open>run\<close> logs.
\<close>

theorem redactedDSNInfo_prints_keyword_value_password:
  "redactedDSNInfo sample_url_Parse ''host=db user=alice password=secret1 dbname=app'' =
     ''host= db=host=db user=alice password=secret1 dbname=app user='' \<and>
   redactedDSNInfo sample_url_Parse ''host=db user=alice password=secret1 dbname=app'' \<noteq>
     redactedDSNInfo sample_url_Parse ''host=db user=alice password=hunter2 dbname=app'' \<and>
   validateConfig (parseFlags no_flags ''host=db user=alice password=secret1 dbname=app'') = None \<and>
   hd (fst (run quiet_env
       (parseFlags no_flags ''host=db user=alice password=secret1 dbname=app''))) =
     LogConfig 1000 300000000000 12 4 50000000 50000000 1 1
       ''host= db=host=db user=alice password=secret1 dbname=app user=''"
  by (simp add: parseFlags_eq no_flags_def merge_forms_def positive_value_def word_sless_alt
      word_sle_eq validateConfig_def default_defs run_def quiet_env_def logged_writer_max_def
      go_div_def signed_divide_int_def redactedDSNInfo_def sample_url_Parse_def
      path_only_url_def Let_def split: option.splits)

declare safeArgs_loop.simps [simp del]

lemma safeArgs_loop_map:
  "i \<le> length args \<Longrightarrow> length vals = length args \<Longrightarrow>
   safeArgs_loop m args i vals = take i vals @ map (render_arg m) (drop i args)"
proof (induction m args i vals rule: safeArgs_loop.induct)
  case (1 m args i vals)
  note unf = safeArgs_loop.simps[of m args i vals]
  show ?case
  proof (cases "i < length args")
    case False
    with 1(3,4) show ?thesis unfolding unf by simp
  next
    case True
    then have d: "drop i args = args ! i # drop (Suc i) args"
      by (simp add: Cons_nth_drop_Suc)
    have t: "\<And>v. take (Suc i) (vals[i := v]) = take i vals @ [v]"
      using True 1(4) by (simp add: take_Suc_conv_app_nth)
    show ?thesis
    proof (cases "m (args ! i)")
      case (Inl e)
      with 1(1)[OF True Inl] 1(3,4) True d t show ?thesis
        unfolding unf by (simp add: render_arg_def)
    next
      case (Inr b)
      with 1(2)[OF True Inr] 1(3,4) True d t show ?thesis
        unfolding unf by (simp add: render_arg_def)
    qed
  qed
qed

text \<open>
  C8: for every argument list and every JSON encoder, the entries \<open>safeArgs\<close> builds are
  the renderings of the arguments, one per argument and in order (the encoding when
  marshaling succeeds, the marker "<unmarshalable>" otherwise), and its result is these
  entries joined by ", " between brackets; the function is total.
\<close>

theorem safeArgs_one_entry_per_argument:
  "safeArgs_vals m args = map (render_arg m) args \<and>
   length (safeArgs_vals m args) = length args \<and>
   safeArgs m args = ''['' @ strings_Join (map (render_arg m) args) '', '' @ '']''"
  by (simp add: safeArgs_def safeArgs_vals_def safeArgs_loop_map)

text \<open>
  C7: \<open>safeRemoteAddr\<close> renders a TCP endpoint as the string of its address, a nil
  connection, nil transport or nil address as "<nil>", and an address of any other kind
  as "<remote>"; these are all the cases, so it returns on every connection.
\<close>

theorem safeRemoteAddr_total:
  "safeRemoteAddr None = ''<nil>'' \<and>
   safeRemoteAddr (Some \<lparr>PgConn_Conn = None\<rparr>) = ''<nil>'' \<and>
   safeRemoteAddr (Some \<lparr>PgConn_Conn = Some \<lparr>RemoteAddr = None\<rparr>\<rparr>) = ''<nil>'' \<and>
   safeRemoteAddr (Some \<lparr>PgConn_Conn = Some \<lparr>RemoteAddr = Some (TCPAddr s)\<rparr>\<rparr>) = s \<and>
   safeRemoteAddr (Some \<lparr>PgConn_Conn = Some \<lparr>RemoteAddr = Some (OtherAddr s)\<rparr>\<rparr>) = ''<remote>''"
  by (simp add: safeRemoteAddr_def)

section \<open>The workload: invariants of every run\<close>

lemma get_stream_simps [simp]:
  "get_stream sd (set_stream sd' s w) = (if sd = sd' then s else get_stream sd w)"
  "get_stream sd (emit es w) = get_stream sd w"
  "get_stream sd (w\<lparr>g_err := x\<rparr>) = get_stream sd w"
  "get_stream sd (w\<lparr>gctx_err := y\<rparr>) = get_stream sd w"
  "get_stream sd (w\<lparr>wr := s\<rparr>) = (if sd = Writer then s else get_stream sd w)"
  "get_stream sd (w\<lparr>rd := s\<rparr>) = (if sd = Reader then s else get_stream sd w)"
  by (cases sd; cases sd'; simp add: emit_def)+

lemma global_simps [simp]:
  "gctx_err (set_stream sd s w) = gctx_err w"
  "g_err (set_stream sd s w) = g_err w"
  "wlog (set_stream sd s w) = wlog w"
  "gctx_err (emit es w) = gctx_err w"
  "g_err (emit es w) = g_err w"
  "wlog (emit es w) = wlog w @ es"
  by (cases sd; simp add: emit_def)+

lemma spawn_guard: "(int j < sint (conc cfg sd)) = (j < fanout cfg sd)"
  by (auto simp: fanout_def)

lemma invocation_nil: "snd (invocation sd i qr) = None"
  by (cases sd; cases qr) simp_all

lemma get_stream_g_return [simp]:
  "get_stream sd' (g_return sd r w) =
     (if sd' = sd then (get_stream sd w)\<lparr>phase := Finished r\<rparr> else get_stream sd' w)"
  by (simp add: g_return_def Let_def split: option.splits)

lemma rd_wr_g_return [simp]:
  "wr (g_return sd r w) = (if sd = Writer then (wr w)\<lparr>phase := Finished r\<rparr> else wr w)"
  "rd (g_return sd r w) = (if sd = Reader then (rd w)\<lparr>phase := Finished r\<rparr> else rd w)"
  by (cases sd; simp add: g_return_def Let_def split: option.splits; fail)+

lemma get_stream_tick_other: "sd' \<noteq> sd \<Longrightarrow> get_stream sd' (tick cfg sd w) = get_stream sd' w"
  by (auto simp: tick_def Let_def split: phase.splits option.splits sid.splits)

lemma get_stream_query_other:
  "sd' \<noteq> sd \<Longrightarrow> get_stream sd' (query_returns sd qr w) = get_stream sd' w"
  by (simp add: query_returns_def Let_def split: prod.splits)

lemma get_stream_timer_other:
  "sd' \<noteq> sd \<Longrightarrow> get_stream sd' (timer_fires sd w) = get_stream sd' w"
  by (simp add: timer_fires_def Let_def)

lemma get_stream_deadline [simp]: "get_stream sd (deadline w) = get_stream sd w"
  by (simp add: deadline_def)

lemma wr_get: "wr w = get_stream Writer w" "rd w = get_stream Reader w"
  by simp_all

lemma get_stream_ddl_other:
  "sd' \<noteq> Writer \<Longrightarrow> get_stream sd' (ddl_returns r w) = get_stream sd' w"
  by (simp add: ddl_returns_def split: option.splits)

lemma stream_inv_tick_same:
  "stream_inv cfg sd (get_stream sd w) \<Longrightarrow> stream_inv cfg sd (get_stream sd (tick cfg sd w))"
  by (cases "phase (get_stream sd w)")
     (auto simp: tick_def Let_def stream_inv_def spawn_guard simp del: conc.simps
           split: option.splits sid.splits)

lemma stream_inv_query_same:
  "stream_inv cfg sd (get_stream sd w) \<Longrightarrow>
   stream_inv cfg sd (get_stream sd (query_returns sd qr w))"
  using invocation_nil[of sd "round_i (get_stream sd w)" qr]
  by (cases "phase (get_stream sd w)")
     (auto simp: query_returns_def Let_def stream_inv_def split: prod.splits)

lemma stream_inv_timer_same:
  "stream_inv cfg sd (get_stream sd w) \<Longrightarrow> stream_inv cfg sd (get_stream sd (timer_fires sd w))"
  by (cases "phase (get_stream sd w)") (auto simp: timer_fires_def Let_def stream_inv_def)

lemma stream_inv_ddl_same:
  "stream_inv cfg Writer (get_stream Writer w) \<Longrightarrow>
   stream_inv cfg Writer (get_stream Writer (ddl_returns r w))"
  by (cases r) (auto simp: ddl_returns_def stream_inv_def)

lemma stream_inv_step:
  "stream_inv cfg sd (get_stream sd w) \<Longrightarrow> stream_inv cfg sd (get_stream sd (step cfg w a))"
proof (cases a)
  case (Tick sd')
  then show "stream_inv cfg sd (get_stream sd w) \<Longrightarrow> ?thesis"
    by (cases "sd = sd'") (simp_all add: stream_inv_tick_same get_stream_tick_other)
next
  case (DDLReturns r)
  then show "stream_inv cfg sd (get_stream sd w) \<Longrightarrow> ?thesis"
    using stream_inv_ddl_same[of cfg w r] get_stream_ddl_other[of sd r w]
    by (cases "sd = Writer") (simp_all del: get_stream.simps)
next
  case (QueryReturns sd' qr)
  then show "stream_inv cfg sd (get_stream sd w) \<Longrightarrow> ?thesis"
    by (cases "sd = sd'") (simp_all add: stream_inv_query_same get_stream_query_other)
next
  case (TimerFires sd')
  then show "stream_inv cfg sd (get_stream sd w) \<Longrightarrow> ?thesis"
    by (cases "sd = sd'") (simp_all add: stream_inv_timer_same get_stream_timer_other)
next
  case Deadline
  then show "stream_inv cfg sd (get_stream sd w) \<Longrightarrow> ?thesis" by simp
qed

lemma exec_snoc: "exec cfg w (acts @ [a]) = step cfg (exec cfg w acts) a"
  by (simp add: exec_def)

lemma exec_append: "exec cfg w (acts @ acts') = exec cfg (exec cfg w acts) acts'"
  by (simp add: exec_def)

lemma stream_inv_exec:
  "stream_inv cfg sd (get_stream sd w) \<Longrightarrow> stream_inv cfg sd (get_stream sd (exec cfg w acts))"
  by (induction acts rule: rev_induct) (simp_all add: exec_snoc stream_inv_step, simp add: exec_def)

lemma stream_inv_init: "stream_inv cfg sd (get_stream sd init_world)"
  by (cases sd) (simp_all add: init_world_def init_stream_def stream_inv_def)

lemma stream_inv_reachable: "stream_inv cfg sd (get_stream sd (exec cfg init_world acts))"
  by (rule stream_inv_exec[OF stream_inv_init])

lemma gctx_g_return [simp]:
  "gctx_err (g_return sd r w) =
     (case r of None \<Rightarrow> gctx_err w
      | Some e \<Rightarrow> if g_err w = None \<and> gctx_err w = None then Some Canceled else gctx_err w)"
  "g_err (g_return sd r w) =
     (case r of None \<Rightarrow> g_err w | Some e \<Rightarrow> if g_err w = None then Some e else g_err w)"
  by (auto simp: g_return_def Let_def split: option.splits)

lemma gctx_step: "gctx_err w = Some c \<Longrightarrow> gctx_err (step cfg w a) = Some c"
  by (cases a)
     (auto simp: tick_def ddl_returns_def query_returns_def timer_fires_def deadline_def Let_def
           split: phase.splits option.splits sid.splits prod.splits)

lemma gctx_exec: "gctx_err w = Some c \<Longrightarrow> gctx_err (exec cfg w acts) = Some c"
  by (induction acts rule: rev_induct) (simp_all add: exec_snoc gctx_step, simp add: exec_def)

lemma started_step:
  "gctx_err w = Some c \<Longrightarrow> started (get_stream sd (step cfg w a)) = started (get_stream sd w)"
  by (cases a)
     (auto simp: tick_def ddl_returns_def query_returns_def timer_fires_def Let_def
           split: phase.splits option.splits sid.splits prod.splits)

lemma started_exec:
  "gctx_err w = Some c \<Longrightarrow> started (get_stream sd (exec cfg w acts)) = started (get_stream sd w)"
proof (induction acts rule: rev_induct)
  case Nil
  then show ?case by (simp add: exec_def)
next
  case (snoc a acts)
  from gctx_exec[OF snoc.prems] have "gctx_err (exec cfg w acts) = Some c" .
  from started_step[OF this] snoc show ?case by (simp add: exec_snoc)
qed

lemma finished_step:
  "phase (get_stream sd w) = Finished r \<Longrightarrow> get_stream sd (step cfg w a) = get_stream sd w"
  by (cases a)
     (auto simp: tick_def ddl_returns_def query_returns_def timer_fires_def Let_def
           split: phase.splits option.splits sid.splits prod.splits)

lemma finished_exec:
  "phase (get_stream sd w) = Finished r \<Longrightarrow> get_stream sd (exec cfg w acts) = get_stream sd w"
  by (induction acts rule: rev_induct) (simp_all add: exec_snoc finished_step, simp add: exec_def)

lemma gctx_tick [simp]: "gctx_err (tick cfg sd w) = gctx_err w"
  by (cases "phase (get_stream sd w)")
     (auto simp: tick_def Let_def split: option.splits sid.splits)

lemma gctx_query [simp]: "gctx_err (query_returns sd qr w) = gctx_err w"
  by (simp add: query_returns_def Let_def split: prod.splits)

lemma gctx_timer [simp]: "gctx_err (timer_fires sd w) = gctx_err w"
  by (simp add: timer_fires_def Let_def)

lemma g_err_query [simp]: "g_err (query_returns sd qr w) = g_err w"
  by (simp add: query_returns_def Let_def split: prod.splits)

lemma g_err_timer [simp]: "g_err (timer_fires sd w) = g_err w"
  by (simp add: timer_fires_def Let_def)

lemma g_err_deadline [simp]: "g_err (deadline w) = g_err w"
  by (simp add: deadline_def)

lemma g_err_tick:
  "g_err (tick cfg sd w) = g_err w \<or>
   (g_err w = None \<and> gctx_err w \<noteq> None \<and> g_err (tick cfg sd w) = gctx_err w)"
  by (cases "phase (get_stream sd w)")
     (auto simp: tick_def Let_def split: option.splits sid.splits)

lemma gctx_ddl:
  "gctx_err (ddl_returns r w) = gctx_err w \<or>
   (gctx_err w = None \<and> g_err w = None \<and> gctx_err (ddl_returns r w) = Some Canceled)"
  by (auto simp: ddl_returns_def split: option.splits)

lemma g_err_ddl:
  "g_err (ddl_returns r w) = g_err w \<or>
   (g_err w = None \<and> (\<exists>e. g_err (ddl_returns r w) = Some (Wrap ''writer DDL'' e)))"
  by (auto simp: ddl_returns_def split: option.splits)

lemma ddl_cancels: "g_err (ddl_returns r w) \<noteq> g_err w \<Longrightarrow> gctx_err (ddl_returns r w) \<noteq> None"
  by (auto simp: ddl_returns_def split: option.splits if_splits)

lemma gctx_inv_step: "gctx_inv w \<Longrightarrow> gctx_inv (step cfg w a)"
proof (cases a)
  case (Tick sd)
  assume "gctx_inv w"
  with g_err_tick[of cfg sd w] Tick show ?thesis
    by (auto simp: gctx_inv_def split: option.splits)
next
  case (DDLReturns r)
  assume "gctx_inv w"
  with gctx_ddl[of r w] g_err_ddl[of r w] ddl_cancels[of r w] DDLReturns show ?thesis
    by (auto simp: gctx_inv_def ctx_error_def split: option.splits)
next
  case Deadline
  assume "gctx_inv w"
  with Deadline show ?thesis
    by (auto simp: gctx_inv_def ctx_error_def deadline_def split: option.splits)
qed (simp_all add: gctx_inv_def split: option.splits)

lemma g_err_inv_step: "gctx_inv w \<Longrightarrow> g_err_inv w \<Longrightarrow> g_err_inv (step cfg w a)"
proof (cases a)
  case (Tick sd)
  assume "gctx_inv w" "g_err_inv w"
  with g_err_tick[of cfg sd w] Tick show ?thesis
    by (auto simp: gctx_inv_def g_err_inv_def split: option.splits)
next
  case (DDLReturns r)
  assume "gctx_inv w" "g_err_inv w"
  with g_err_ddl[of r w] DDLReturns show ?thesis
    by (auto simp: g_err_inv_def is_ddl_error_def split: option.splits)
qed (simp_all add: g_err_inv_def)

lemma returns_ok_frame:
  "returns_ok sd w \<Longrightarrow> get_stream sd w' = get_stream sd w \<Longrightarrow>
   (\<And>c. gctx_err w = Some c \<Longrightarrow> gctx_err w' = Some c) \<Longrightarrow> returns_ok sd w'"
  by (auto simp: returns_ok_def split: phase.splits option.splits)

lemma returns_ok_tick_same: "returns_ok sd w \<Longrightarrow> returns_ok sd (tick cfg sd w)"
  by (cases "phase (get_stream sd w)")
     (auto simp: tick_def Let_def returns_ok_def split: option.splits sid.splits)

lemma returns_ok_query_same: "returns_ok sd w \<Longrightarrow> returns_ok sd (query_returns sd qr w)"
  by (cases "phase (get_stream sd w)")
     (auto simp: query_returns_def Let_def returns_ok_def split: prod.splits)

lemma returns_ok_timer_same: "returns_ok sd w \<Longrightarrow> returns_ok sd (timer_fires sd w)"
  by (cases "phase (get_stream sd w)")
     (auto simp: timer_fires_def Let_def returns_ok_def)

lemma returns_ok_ddl_same: "returns_ok Writer w \<Longrightarrow> returns_ok Writer (ddl_returns r w)"
  by (cases r) (auto simp: ddl_returns_def returns_ok_def is_ddl_error_def)

lemma returns_ok_step: "returns_ok sd w \<Longrightarrow> returns_ok sd (step cfg w a)"
proof -
  assume ok: "returns_ok sd w"
  have mono: "\<And>c. gctx_err w = Some c \<Longrightarrow> gctx_err (step cfg w a) = Some c"
    by (rule gctx_step)
  show ?thesis
  proof (cases a)
    case (Tick sd')
    show ?thesis
    proof (cases "sd = sd'")
      case True
      with ok Tick show ?thesis by (simp add: returns_ok_tick_same)
    next
      case False
      with Tick have "get_stream sd (step cfg w a) = get_stream sd w"
        by (simp add: get_stream_tick_other)
      from returns_ok_frame[OF ok this mono] show ?thesis .
    qed
  next
    case (DDLReturns r)
    show ?thesis
    proof (cases "sd = Writer")
      case True
      with ok DDLReturns show ?thesis by (simp add: returns_ok_ddl_same)
    next
      case False
      with DDLReturns have "get_stream sd (step cfg w a) = get_stream sd w"
        by (simp add: get_stream_ddl_other)
      from returns_ok_frame[OF ok this mono] show ?thesis .
    qed
  next
    case (QueryReturns sd' qr)
    show ?thesis
    proof (cases "sd = sd'")
      case True
      with ok QueryReturns show ?thesis by (simp add: returns_ok_query_same)
    next
      case False
      with QueryReturns have "get_stream sd (step cfg w a) = get_stream sd w"
        by (simp add: get_stream_query_other)
      from returns_ok_frame[OF ok this mono] show ?thesis .
    qed
  next
    case (TimerFires sd')
    show ?thesis
    proof (cases "sd = sd'")
      case True
      with ok TimerFires show ?thesis by (simp add: returns_ok_timer_same)
    next
      case False
      with TimerFires have "get_stream sd (step cfg w a) = get_stream sd w"
        by (simp add: get_stream_timer_other)
      from returns_ok_frame[OF ok this mono] show ?thesis .
    qed
  next
    case Deadline
    then have "get_stream sd (step cfg w a) = get_stream sd w" by simp
    from returns_ok_frame[OF ok this mono] show ?thesis .
  qed
qed

lemma err_inv_exec:
  "gctx_inv w \<and> g_err_inv w \<and> returns_ok sd w \<Longrightarrow>
   gctx_inv (exec cfg w acts) \<and> g_err_inv (exec cfg w acts) \<and> returns_ok sd (exec cfg w acts)"
  by (induction acts rule: rev_induct)
     (simp add: exec_def, simp add: exec_snoc gctx_inv_step g_err_inv_step returns_ok_step)

lemma err_inv_init: "gctx_inv init_world \<and> g_err_inv init_world \<and> returns_ok sd init_world"
  by (cases sd) (simp_all add: gctx_inv_def g_err_inv_def returns_ok_def init_world_def init_stream_def)

lemma err_inv_reachable:
  "gctx_inv (exec cfg init_world acts) \<and> g_err_inv (exec cfg init_world acts) \<and>
   returns_ok sd (exec cfg init_world acts)"
  by (rule err_inv_exec[OF err_inv_init])

lemma get_stream_wlog [simp]: "get_stream sd (w\<lparr>wlog := l\<rparr>) = get_stream sd w"
  by (cases sd) simp_all

lemma without_log_simps [simp]:
  "gctx_err (without_log w) = gctx_err w"
  "g_err (without_log w) = g_err w"
  "get_stream sd (without_log w) = get_stream sd w"
  "wlog (without_log w) = []"
  "without_log (emit es w) = without_log w"
  "without_log (set_stream sd s w) = set_stream sd s (without_log w)"
  "without_log (without_log w) = without_log w"
  by (cases sd; simp add: without_log_def emit_def)+

lemma without_log_fields [simp]:
  "rd (without_log w) = rd w"
  "wr (without_log w) = wr w"
  "without_log (w\<lparr>rd := s\<rparr>) = (without_log w)\<lparr>rd := s\<rparr>"
  "without_log (w\<lparr>wr := s\<rparr>) = (without_log w)\<lparr>wr := s\<rparr>"
  by (simp_all add: without_log_def)

lemma without_log_g_return [simp]:
  "without_log (g_return sd r w) = g_return sd r (without_log w)"
  by (cases sd) (auto simp: g_return_def without_log_def Let_def split: option.splits)

lemma emit_without_log: "without_log (emit es (without_log w)) = without_log w"
  by simp

lemma without_log_tick: "without_log (tick cfg sd w) = without_log (tick cfg sd (without_log w))"
  by (cases "phase (get_stream sd w)")
     (auto simp: tick_def Let_def split: option.splits sid.splits)

lemma without_log_ddl: "without_log (ddl_returns r w) = without_log (ddl_returns r (without_log w))"
  by (auto simp: ddl_returns_def split: option.splits)

lemma without_log_query:
  "without_log (query_returns sd qr w) = without_log (query_returns sd (QOk 0) (without_log w))"
  using invocation_nil[of sd "round_i (get_stream sd w)" qr]
        invocation_nil[of sd "round_i (get_stream sd w)" "QOk 0"]
  by (auto simp: query_returns_def Let_def split: prod.splits)

lemma without_log_timer:
  "without_log (timer_fires sd w) = without_log (timer_fires sd (without_log w))"
  by (auto simp: timer_fires_def Let_def)

lemma without_log_deadline: "without_log (deadline w) = without_log (deadline (without_log w))"
  by (auto simp: deadline_def without_log_def)

lemma without_log_step:
  "without_log (step cfg w a) = without_log (step cfg (without_log w) (forget_result a))"
  by (cases a)
     (simp_all add: without_log_tick[of cfg _ w] without_log_ddl[of _ w] without_log_query[of _ _ w]
        without_log_timer[of _ w] without_log_deadline[of w])

lemma without_log_foldl:
  "without_log w = without_log w' \<Longrightarrow> map forget_result acts = map forget_result acts' \<Longrightarrow>
   without_log (foldl (step cfg) w acts) = without_log (foldl (step cfg) w' acts')"
proof (induction acts arbitrary: w w' acts')
  case Nil
  then show ?case by simp
next
  case (Cons a acts)
  then obtain a' as' where acts': "acts' = a' # as'" by (cases acts') auto
  with Cons.prems have fa: "forget_result a = forget_result a'"
    and rest: "map forget_result acts = map forget_result as'" by simp_all
  have "without_log (step cfg w a) = without_log (step cfg w' a')"
    using without_log_step[of cfg w a] without_log_step[of cfg w' a'] fa Cons.prems(1) by simp
  from Cons.IH[OF this rest] acts' show ?case by simp
qed

section \<open>The workload: barrier, query errors and the schema failure\<close>

lemma sample_cfg_eq:
  "sample_cfg = \<lparr>Iterations = 1000, Timeout = 300000000000, ReaderMax = 12, WriterMax = 0,
     ReaderSleep = 50000000, WriterSleep = 50000000, ReaderConc = 1, WriterConc = 1,
     DSN = ''postgres://alice:secret1@db:26257/app''\<rparr>"
  by (simp add: sample_cfg_def parseFlags_eq no_flags_def merge_forms_def positive_value_def
      default_defs)

lemmas eval_defs = exec_def tick_def ddl_returns_def query_returns_def timer_fires_def
  deadline_def g_return_def emit_def init_world_def init_stream_def Let_def

lemma conc_cfg_eq:
  "conc_cfg = \<lparr>Iterations = 1000, Timeout = 300000000000, ReaderMax = 12, WriterMax = 0,
     ReaderSleep = 50000000, WriterSleep = 50000000, ReaderConc = 2, WriterConc = 3,
     DSN = ''postgres://alice:secret1@db:26257/app''\<rparr>"
  by (simp add: conc_cfg_def parseFlags_eq no_flags_def merge_forms_def positive_value_def
      default_defs word_sless_alt)

lemma reader_round_state:
  "exec conc_cfg init_world reader_round =
     \<lparr>gctx_err = None, g_err = None,
      rd = \<lparr>phase = AtSleep, round_i = 0, spawn_j = 2, pending = 0, grp_err = None,
            started = 1, returned = 2, cleared = [2]\<rparr>,
      wr = init_stream,
      wlog = [LogStarted Reader, LogQueryError Reader (External 7), LogPing 1 5]\<rparr>"
  by (simp add: conc_cfg_eq reader_round_def eval_defs)

lemma reader_relaunch_state:
  "exec conc_cfg init_world (reader_round @ reader_relaunch) =
     \<lparr>gctx_err = None, g_err = None,
      rd = \<lparr>phase = AtWait, round_i = 1, spawn_j = 2, pending = 2, grp_err = None,
            started = 2, returned = 0, cleared = [2]\<rparr>,
      wr = init_stream,
      wlog = [LogStarted Reader, LogQueryError Reader (External 7), LogPing 1 5]\<rparr>"
  unfolding exec_append reader_round_state
  by (simp add: conc_cfg_eq reader_relaunch_def eval_defs)

lemma both_streams_state:
  "exec conc_cfg init_world both_streams_schedule =
     \<lparr>gctx_err = None, g_err = None,
      rd = \<lparr>phase = AtWait, round_i = 1, spawn_j = 2, pending = 1, grp_err = None,
            started = 2, returned = 1, cleared = [2]\<rparr>,
      wr = \<lparr>phase = AtWait, round_i = 1, spawn_j = 3, pending = 2, grp_err = None,
            started = 2, returned = 1, cleared = [3]\<rparr>,
      wlog = [LogStarted Reader, LogQueryError Reader (External 7), LogPing 1 5,
              LogQueryError Reader (External 8), LogStarted Writer, LogEnsuringTable,
              LogUpsertOk 1, LogQueryError Writer (External 9), LogUpsertOk 2,
              LogUpsertOk 3]\<rparr>"
proof -
  have "exec conc_cfg init_world both_streams_schedule =
          exec conc_cfg (exec conc_cfg init_world (reader_round @ reader_relaunch))
            ([QueryReturns Reader (QErr (External 8))] @ writer_rounds)"
    by (simp add: both_streams_schedule_def exec_def)
  then show ?thesis
    unfolding reader_relaunch_state
    by (simp add: conc_cfg_eq writer_rounds_def eval_defs)
qed

lemma pending_phase:
  "stream_inv cfg sd s \<Longrightarrow> 0 < pending s \<Longrightarrow> phase s = AtSpawn \<or> phase s = AtWait"
  by (cases "phase s") (auto simp: stream_inv_def)

lemma barrier_blocks:
  "phase (get_stream sd w) = AtWait \<Longrightarrow> 0 < pending (get_stream sd w) \<Longrightarrow>
   step cfg w (Tick sd) = w"
  by (simp add: tick_def Let_def)

text \<open>
  C9: in every run, every barrier of the reader that has released saw
  \<open>ReaderConc\<close> invocations of its round returned, and every barrier of the writer
  \<open>WriterConc\<close>; at the barrier all of them are launched and each has returned or is
  pending; and for each stream: while an invocation is pending at the barrier the
  goroutine's step changes nothing; invocations are pending only inside a round; the
  rounds begun never exceed the barriers released by more than one, so that while round
  \<open>i\<close> is in progress exactly the barriers of rounds \<open>0..i-1\<close> have released.
\<close>

theorem round_barrier_waits_for_all:
  assumes "w = exec cfg init_world acts" and "s = get_stream sd w"
  shows "list_all (\<lambda>n. n = nat (sint (ReaderConc cfg))) (cleared (rd w)) \<and>
         list_all (\<lambda>n. n = nat (sint (WriterConc cfg))) (cleared (wr w)) \<and>
         (phase (rd w) = AtWait \<longrightarrow>
            returned (rd w) + pending (rd w) = nat (sint (ReaderConc cfg))) \<and>
         (phase (wr w) = AtWait \<longrightarrow>
            returned (wr w) + pending (wr w) = nat (sint (WriterConc cfg))) \<and>
         (phase s = AtWait \<and> 0 < pending s \<longrightarrow> step cfg w (Tick sd) = w) \<and>
         (0 < pending s \<longrightarrow> phase s = AtSpawn \<or> phase s = AtWait) \<and>
         started s \<le> length (cleared s) + 1 \<and>
         (phase s = AtSpawn \<or> phase s = AtWait \<longrightarrow>
            started s = round_i s + 1 \<and> length (cleared s) = round_i s)"
proof -
  have inv: "stream_inv cfg sd s"
    unfolding assms by (rule stream_inv_reachable)
  have inv_r: "stream_inv cfg Reader (rd w)"
    using stream_inv_reachable[of cfg Reader acts] assms(1) by simp
  have inv_w: "stream_inv cfg Writer (wr w)"
    using stream_inv_reachable[of cfg Writer acts] assms(1) by simp
  have a_r: "list_all (\<lambda>n. n = nat (sint (ReaderConc cfg))) (cleared (rd w))"
    using inv_r by (simp add: stream_inv_def fanout_def)
  have a_w: "list_all (\<lambda>n. n = nat (sint (WriterConc cfg))) (cleared (wr w))"
    using inv_w by (simp add: stream_inv_def fanout_def)
  have b_r: "phase (rd w) = AtWait \<longrightarrow>
            returned (rd w) + pending (rd w) = nat (sint (ReaderConc cfg))"
    using inv_r by (auto simp: stream_inv_def fanout_def)
  have b_w: "phase (wr w) = AtWait \<longrightarrow>
            returned (wr w) + pending (wr w) = nat (sint (WriterConc cfg))"
    using inv_w by (auto simp: stream_inv_def fanout_def)
  have e: "started s \<le> length (cleared s) + 1"
    using inv by (simp add: stream_inv_def)
  have c: "phase s = AtWait \<and> 0 < pending s \<longrightarrow> step cfg w (Tick sd) = w"
    using barrier_blocks[of sd w cfg] assms(2) by simp
  have d: "0 < pending s \<longrightarrow> phase s = AtSpawn \<or> phase s = AtWait"
    using pending_phase[OF inv] by blast
  have f: "phase s = AtSpawn \<or> phase s = AtWait \<longrightarrow>
            started s = round_i s + 1 \<and> length (cleared s) = round_i s"
    using inv by (auto simp: stream_inv_def)
  from a_r a_w b_r b_w c d e f show ?thesis by blast
qed

theorem round_barrier_waits_for_all_witness:
  "ReaderConc conc_cfg = 2 \<and> WriterConc conc_cfg = 3 \<and>
   cleared (rd (exec conc_cfg init_world both_streams_schedule)) = [2] \<and>
   cleared (wr (exec conc_cfg init_world both_streams_schedule)) = [3] \<and>
   phase (rd (exec conc_cfg init_world both_streams_schedule)) = AtWait \<and>
   returned (rd (exec conc_cfg init_world both_streams_schedule)) = 1 \<and>
   pending (rd (exec conc_cfg init_world both_streams_schedule)) = 1 \<and>
   phase (wr (exec conc_cfg init_world both_streams_schedule)) = AtWait \<and>
   returned (wr (exec conc_cfg init_world both_streams_schedule)) = 1 \<and>
   pending (wr (exec conc_cfg init_world both_streams_schedule)) = 2 \<and>
   step conc_cfg (exec conc_cfg init_world both_streams_schedule) (Tick Reader) =
     exec conc_cfg init_world both_streams_schedule \<and>
   started (rd (exec conc_cfg init_world both_streams_schedule)) = 2 \<and>
   round_i (rd (exec conc_cfg init_world both_streams_schedule)) = 1"
proof -
  note r = round_barrier_waits_for_all
    [of "exec conc_cfg init_world both_streams_schedule" conc_cfg both_streams_schedule
        "rd (exec conc_cfg init_world both_streams_schedule)" Reader]
  have cc: "ReaderConc conc_cfg = 2" "WriterConc conc_cfg = 3"
    by (simp_all add: conc_cfg_eq)
  from r cc show ?thesis
    by (simp add: both_streams_state)
qed

lemma reader_error_step:
  assumes "0 < pending (rd w)" and "phase (rd w) = AtSpawn \<or> phase (rd w) = AtWait"
    and "grp_err (rd w) = None"
  shows "step cfg w (QueryReturns Reader (QErr e)) =
           w\<lparr>rd := (rd w)\<lparr>pending := pending (rd w) - 1, returned := returned (rd w) + 1\<rparr>,
             wlog := wlog w @ [LogQueryError Reader e]\<rparr>"
  using assms by (auto simp: query_returns_def emit_def Let_def)

lemma next_round_begins:
  assumes "phase (rd w) = AtSleep" and "gctx_err w = None"
    and "int (round_i (rd w)) + 1 < sint (Iterations cfg)"
  shows "phase (rd (exec cfg w [TimerFires Reader, Tick Reader])) = AtSpawn \<and>
         started (rd (exec cfg w [TimerFires Reader, Tick Reader])) = started (rd w) + 1 \<and>
         round_i (rd (exec cfg w [TimerFires Reader, Tick Reader])) = round_i (rd w) + 1"
  using assms by (simp add: exec_def timer_fires_def tick_def Let_def)

text \<open>
  C3: a failing reader invocation logs the error and returns nil to the round's group;
  when it returns, the state changes only by the log line and the counts of pending and
  returned invocations, so the other invocations of the round stay launched; two runs
  that differ only in the results of their queries reach states that differ only in the
  log; at the barrier \<open>ReaderConc\<close> invocations are launched, each returned or pending,
  and every round of the reader that passed its barrier ran \<open>ReaderConc\<close> invocations;
  after a round, with the context live and iterations left, the next round begins; and
  when the reader returns a non-nil error, the shared context is done and the error is
  its error, cancellation or deadline.
\<close>

theorem reader_query_errors_only_logged:
  assumes "w = exec cfg init_world acts" and "u = exec cfg init_world others"
  shows "invocation Reader i (QErr e) = ([LogQueryError Reader e], None) \<and>
         (0 < pending (rd w) \<longrightarrow>
            step cfg w (QueryReturns Reader (QErr e)) =
              w\<lparr>rd := (rd w)\<lparr>pending := pending (rd w) - 1, returned := returned (rd w) + 1\<rparr>,
                wlog := wlog w @ [LogQueryError Reader e]\<rparr>) \<and>
         (map forget_result rest = map forget_result rest' \<longrightarrow>
            without_log (exec cfg w rest) = without_log (exec cfg w rest')) \<and>
         list_all (\<lambda>n. n = nat (sint (ReaderConc cfg))) (cleared (rd w)) \<and>
         (phase (rd w) = AtWait \<longrightarrow>
            returned (rd w) + pending (rd w) = nat (sint (ReaderConc cfg))) \<and>
         (phase (rd v) = AtSleep \<and> gctx_err v = None \<and>
          int (round_i (rd v)) + 1 < sint (Iterations cfg) \<longrightarrow>
            phase (rd (exec cfg v [TimerFires Reader, Tick Reader])) = AtSpawn \<and>
            started (rd (exec cfg v [TimerFires Reader, Tick Reader])) = started (rd v) + 1) \<and>
         (phase (rd u) = Finished (Some x) \<longrightarrow> gctx_err u = Some x \<and> ctx_error x)"
proof -
  have inv: "stream_inv cfg Reader (rd w)"
    using stream_inv_reachable[of cfg Reader acts] assms(1) by simp
  have a: "invocation Reader i (QErr e) = ([LogQueryError Reader e], None)" by simp
  have b: "0 < pending (rd w) \<longrightarrow>
            step cfg w (QueryReturns Reader (QErr e)) =
              w\<lparr>rd := (rd w)\<lparr>pending := pending (rd w) - 1, returned := returned (rd w) + 1\<rparr>,
                wlog := wlog w @ [LogQueryError Reader e]\<rparr>"
  proof
    assume p: "0 < pending (rd w)"
    from pending_phase[OF inv p] have ph: "phase (rd w) = AtSpawn \<or> phase (rd w) = AtWait" .
    from inv have "grp_err (rd w) = None" by (simp add: stream_inv_def)
    from reader_error_step[OF p ph this] show "step cfg w (QueryReturns Reader (QErr e)) =
              w\<lparr>rd := (rd w)\<lparr>pending := pending (rd w) - 1, returned := returned (rd w) + 1\<rparr>,
                wlog := wlog w @ [LogQueryError Reader e]\<rparr>" .
  qed
  have c: "map forget_result rest = map forget_result rest' \<longrightarrow>
            without_log (exec cfg w rest) = without_log (exec cfg w rest')"
    unfolding exec_def using without_log_foldl[of w w rest rest' cfg] by blast
  have d: "list_all (\<lambda>n. n = nat (sint (ReaderConc cfg))) (cleared (rd w))"
    using inv by (simp add: stream_inv_def fanout_def)
  have d2: "phase (rd w) = AtWait \<longrightarrow>
            returned (rd w) + pending (rd w) = nat (sint (ReaderConc cfg))"
    using inv by (auto simp: stream_inv_def fanout_def)
  have f: "phase (rd v) = AtSleep \<and> gctx_err v = None \<and>
          int (round_i (rd v)) + 1 < sint (Iterations cfg) \<longrightarrow>
            phase (rd (exec cfg v [TimerFires Reader, Tick Reader])) = AtSpawn \<and>
            started (rd (exec cfg v [TimerFires Reader, Tick Reader])) = started (rd v) + 1"
    using next_round_begins[of v cfg] by blast
  have g: "phase (rd u) = Finished (Some x) \<longrightarrow> gctx_err u = Some x \<and> ctx_error x"
    using err_inv_reachable[of cfg others Reader] assms(2)
    by (auto simp: returns_ok_def gctx_inv_def)
  from a b c d d2 f g show ?thesis by blast
qed

lemma deadline_state:
  "exec conc_cfg init_world deadline_schedule =
     \<lparr>gctx_err = Some DeadlineExceeded, g_err = Some DeadlineExceeded,
      rd = \<lparr>phase = Finished (Some DeadlineExceeded), round_i = 0, spawn_j = 0, pending = 0,
            grp_err = None, started = 0, returned = 0, cleared = []\<rparr>,
      wr = init_stream,
      wlog = [LogStarted Reader, LogCtxDone Reader DeadlineExceeded]\<rparr>"
  by (simp add: conc_cfg_eq deadline_schedule_def eval_defs)

lemma second_round_done_state:
  "exec conc_cfg (exec conc_cfg init_world (reader_round @ reader_relaunch))
      [QueryReturns Reader (QErr (External 8)), QueryReturns Reader (QOk 6), Tick Reader] =
     \<lparr>gctx_err = None, g_err = None,
      rd = \<lparr>phase = AtSleep, round_i = 1, spawn_j = 2, pending = 0, grp_err = None,
            started = 2, returned = 2, cleared = [2, 2]\<rparr>,
      wr = init_stream,
      wlog = [LogStarted Reader, LogQueryError Reader (External 7), LogPing 1 5,
              LogQueryError Reader (External 8), LogPing 2 6]\<rparr>"
  unfolding reader_relaunch_state
  by (simp add: conc_cfg_eq eval_defs)

theorem reader_query_errors_only_logged_witness:
  "ReaderConc conc_cfg = 2 \<and>
   cleared (rd (exec conc_cfg init_world (reader_round @ reader_relaunch))) = [2] \<and>
   phase (rd (exec conc_cfg init_world (reader_round @ reader_relaunch))) = AtWait \<and>
   pending (rd (exec conc_cfg init_world (reader_round @ reader_relaunch))) = 2 \<and>
   step conc_cfg (exec conc_cfg init_world (reader_round @ reader_relaunch))
       (QueryReturns Reader (QErr (External 8))) =
     \<lparr>gctx_err = None, g_err = None,
      rd = \<lparr>phase = AtWait, round_i = 1, spawn_j = 2, pending = 1, grp_err = None,
            started = 2, returned = 1, cleared = [2]\<rparr>,
      wr = init_stream,
      wlog = [LogStarted Reader, LogQueryError Reader (External 7), LogPing 1 5,
              LogQueryError Reader (External 8)]\<rparr> \<and>
   without_log (exec conc_cfg (exec conc_cfg init_world (reader_round @ reader_relaunch))
       [QueryReturns Reader (QErr (External 8)), QueryReturns Reader (QOk 6), Tick Reader]) =
     without_log (exec conc_cfg (exec conc_cfg init_world (reader_round @ reader_relaunch))
       [QueryReturns Reader (QOk 1), QueryReturns Reader (QOk 6), Tick Reader]) \<and>
   cleared (rd (exec conc_cfg (exec conc_cfg init_world (reader_round @ reader_relaunch))
       [QueryReturns Reader (QErr (External 8)), QueryReturns Reader (QOk 6), Tick Reader])) =
     [2, 2] \<and>
   phase (rd (exec conc_cfg init_world reader_round)) = AtSleep \<and>
   phase (rd (exec conc_cfg (exec conc_cfg init_world reader_round)
       [TimerFires Reader, Tick Reader])) = AtSpawn \<and>
   started (rd (exec conc_cfg (exec conc_cfg init_world reader_round)
       [TimerFires Reader, Tick Reader])) = 2 \<and>
   phase (rd (exec conc_cfg init_world deadline_schedule)) = Finished (Some DeadlineExceeded) \<and>
   gctx_err (exec conc_cfg init_world deadline_schedule) = Some DeadlineExceeded"
proof -
  note r = reader_query_errors_only_logged
    [of "exec conc_cfg init_world (reader_round @ reader_relaunch)" conc_cfg
        "reader_round @ reader_relaunch"
        "exec conc_cfg init_world deadline_schedule" deadline_schedule
        1 "External 8"
        "[QueryReturns Reader (QErr (External 8)), QueryReturns Reader (QOk 6), Tick Reader]"
        "[QueryReturns Reader (QOk 1), QueryReturns Reader (QOk 6), Tick Reader]"
        "exec conc_cfg init_world reader_round" DeadlineExceeded,
     OF refl refl]
  have it: "sint (Iterations conc_cfg) = 1000" and rc: "ReaderConc conc_cfg = 2"
    by (simp_all add: conc_cfg_eq)
  have snd_round: "cleared (rd (exec conc_cfg (exec conc_cfg init_world (reader_round @ reader_relaunch))
       [QueryReturns Reader (QErr (External 8)), QueryReturns Reader (QOk 6), Tick Reader])) =
     [2, 2]"
    by (simp add: second_round_done_state)
  from r it rc snd_round show ?thesis
    by (simp add: reader_relaunch_state reader_round_state deadline_state)
qed

lemma g_err_step: "g_err w = Some x \<Longrightarrow> g_err (step cfg w a) = Some x"
proof (cases a)
  case (Tick sd)
  assume "g_err w = Some x"
  with g_err_tick[of cfg sd w] Tick show ?thesis by auto
next
  case (DDLReturns r)
  assume "g_err w = Some x"
  with g_err_ddl[of r w] DDLReturns show ?thesis by auto
qed simp_all

lemma g_err_exec: "g_err w = Some x \<Longrightarrow> g_err (exec cfg w acts) = Some x"
  by (induction acts rule: rev_induct) (simp add: exec_def, simp add: exec_snoc g_err_step)

lemma ddl_failure_step:
  assumes "phase (wr w) = AtDDL"
  shows "wr (ddl_returns (Some e) w) = (wr w)\<lparr>phase := Finished (Some (Wrap ''writer DDL'' e))\<rparr>"
    and "rd (ddl_returns (Some e) w) = rd w"
    and "gctx_err (ddl_returns (Some e) w) =
           (if g_err w = None \<and> gctx_err w = None then Some Canceled else gctx_err w)"
    and "g_err (ddl_returns (Some e) w) =
           (if g_err w = None then Some (Wrap ''writer DDL'' e) else g_err w)"
  using assms by (simp_all add: ddl_returns_def)

lemma reader_stops_at_check:
  assumes "gctx_err w = Some c"
    and "phase (rd w) = AtSleep \<or>
         (phase (rd w) = AtCheck \<and> int (round_i (rd w)) < sint (Iterations cfg))"
  shows "phase (rd (step cfg w (Tick Reader))) = Finished (Some c)"
  using assms by (auto simp: tick_def Let_def)

text \<open>
  C1: when the writer's schema statement returns an error, the writer returns that error
  wrapped, having begun no round, and never begins one; the context of the group is done
  from then on (cancelled, if it was live), and the group's error is the schema error
  unless it held one already; the reader begins no further round, and its next step at a
  round-boundary check returns the context's error. In every run the invocations return
  nil to their group, and the only errors a stream returns or the group holds are the
  context's errors and, for the writer, the schema error.
\<close>

theorem writer_ddl_failure_is_fatal:
  assumes "w = exec cfg init_world acts" and "phase (wr w) = AtDDL"
    and "w1 = step cfg w (DDLReturns (Some e))" and "w2 = exec cfg w1 rest"
    and "u = exec cfg init_world others"
  shows "phase (wr w1) = Finished (Some (Wrap ''writer DDL'' e)) \<and>
         wr w2 = wr w1 \<and> started (wr w2) = 0 \<and>
         gctx_err w1 \<noteq> None \<and> gctx_err w2 = gctx_err w1 \<and>
         (gctx_err w = None \<longrightarrow> gctx_err w1 = Some Canceled) \<and>
         (g_err w = None \<longrightarrow> g_err w2 = Some (Wrap ''writer DDL'' e)) \<and>
         started (rd w2) = started (rd w) \<and>
         (phase (rd w2) = AtSleep \<or>
          (phase (rd w2) = AtCheck \<and> int (round_i (rd w2)) < sint (Iterations cfg)) \<longrightarrow>
            phase (rd (step cfg w2 (Tick Reader))) = Finished (gctx_err w2)) \<and>
         snd (invocation sd i qr) = None \<and>
         (phase (get_stream sd u) = Finished (Some x) \<longrightarrow>
            ctx_error x \<or> (sd = Writer \<and> is_ddl_error x)) \<and>
         (g_err u = Some x \<longrightarrow> ctx_error x \<or> is_ddl_error x)"
proof -
  have w1: "w1 = ddl_returns (Some e) w" using assms(3) by simp
  note f = ddl_failure_step[OF assms(2), of e, folded w1]
  have ginv: "gctx_inv w"
    using err_inv_reachable[of cfg acts Writer] assms(1) by simp
  have sinv: "stream_inv cfg Writer (wr w)"
    using stream_inv_reachable[of cfg Writer acts] assms(1) by simp
  have a: "phase (wr w1) = Finished (Some (Wrap ''writer DDL'' e))"
    by (simp add: f(1))
  have b: "wr w2 = wr w1"
    using finished_exec[of Writer w1 _ cfg rest] a assms(4) by simp
  have st0: "started (wr w) = 0"
    using sinv assms(2) by (simp add: stream_inv_def)
  have c: "started (wr w2) = 0"
    by (simp add: b f(1) st0)
  have d: "gctx_err w1 \<noteq> None"
    using ginv by (auto simp: f(3) gctx_inv_def split: option.splits if_splits)
  then obtain k where k: "gctx_err w1 = Some k" by auto
  have d2: "gctx_err w2 = gctx_err w1"
    using gctx_exec[OF k, of cfg rest] k assms(4) by simp
  have d3: "gctx_err w = None \<longrightarrow> gctx_err w1 = Some Canceled"
    using ginv by (auto simp: f(3) gctx_inv_def split: option.splits)
  have g: "g_err w = None \<longrightarrow> g_err w2 = Some (Wrap ''writer DDL'' e)"
  proof
    assume "g_err w = None"
    then have "g_err w1 = Some (Wrap ''writer DDL'' e)" by (simp add: f(4))
    from g_err_exec[OF this, of cfg rest] assms(4)
    show "g_err w2 = Some (Wrap ''writer DDL'' e)" by simp
  qed
  have h: "started (rd w2) = started (rd w)"
    using started_exec[OF k, of Reader cfg rest] assms(4) by (simp add: f(2))
  have r: "phase (rd w2) = AtSleep \<or>
          (phase (rd w2) = AtCheck \<and> int (round_i (rd w2)) < sint (Iterations cfg)) \<longrightarrow>
            phase (rd (step cfg w2 (Tick Reader))) = Finished (gctx_err w2)"
    using reader_stops_at_check[of w2 k cfg] d2 k by auto
  have n: "snd (invocation sd i qr) = None" by (rule invocation_nil)
  have uinv: "gctx_inv u" "g_err_inv u" "returns_ok sd u"
    using err_inv_reachable[of cfg others sd] assms(5) by simp_all
  have p: "phase (get_stream sd u) = Finished (Some x) \<longrightarrow>
            ctx_error x \<or> (sd = Writer \<and> is_ddl_error x)"
    using uinv(1,3) by (auto simp: returns_ok_def gctx_inv_def)
  have q: "g_err u = Some x \<longrightarrow> ctx_error x \<or> is_ddl_error x"
    using uinv(2) by (auto simp: g_err_inv_def)
  from a b c d d2 d3 g h r n p q show ?thesis by blast
qed

lemma ddl_state:
  "exec sample_cfg init_world ddl_schedule =
     \<lparr>gctx_err = None, g_err = None,
      rd = \<lparr>phase = AtCheck, round_i = 0, spawn_j = 0, pending = 0, grp_err = None,
            started = 0, returned = 0, cleared = []\<rparr>,
      wr = \<lparr>phase = AtDDL, round_i = 0, spawn_j = 0, pending = 0, grp_err = None,
            started = 0, returned = 0, cleared = []\<rparr>,
      wlog = [LogStarted Writer, LogEnsuringTable, LogStarted Reader]\<rparr>"
  by (simp add: sample_cfg_eq ddl_schedule_def eval_defs)

theorem writer_ddl_failure_is_fatal_witness:
  "phase (wr (exec sample_cfg init_world ddl_schedule)) = AtDDL \<and>
   exec sample_cfg init_world (ddl_schedule @ [DDLReturns (Some (External 3)), Tick Writer]) =
     \<lparr>gctx_err = Some Canceled, g_err = Some (Wrap ''writer DDL'' (External 3)),
      rd = \<lparr>phase = AtCheck, round_i = 0, spawn_j = 0, pending = 0, grp_err = None,
            started = 0, returned = 0, cleared = []\<rparr>,
      wr = \<lparr>phase = Finished (Some (Wrap ''writer DDL'' (External 3))), round_i = 0,
            spawn_j = 0, pending = 0, grp_err = None, started = 0, returned = 0, cleared = []\<rparr>,
      wlog = [LogStarted Writer, LogEnsuringTable, LogStarted Reader]\<rparr> \<and>
   phase (rd (step sample_cfg
       (exec sample_cfg init_world (ddl_schedule @ [DDLReturns (Some (External 3)), Tick Writer]))
       (Tick Reader))) = Finished (Some Canceled) \<and>
   is_ddl_error (Wrap ''writer DDL'' (External 3))"
proof -
  let ?w = "exec sample_cfg init_world ddl_schedule"
  let ?w1 = "step sample_cfg ?w (DDLReturns (Some (External 3)))"
  let ?w2 = "exec sample_cfg ?w1 [Tick Writer]"
  have ph: "phase (wr ?w) = AtDDL" by (simp add: ddl_state)
  have w2: "exec sample_cfg init_world (ddl_schedule @ [DDLReturns (Some (External 3)), Tick Writer])
              = ?w2"
    by (simp add: exec_def)
  note r = writer_ddl_failure_is_fatal
    [of ?w sample_cfg ddl_schedule ?w1 "External 3" ?w2 "[Tick Writer]"
        ?w2 "ddl_schedule @ [DDLReturns (Some (External 3)), Tick Writer]"
        Writer 0 "QErr (External 7)" "Wrap ''writer DDL'' (External 3)",
     OF refl ph refl refl w2[symmetric]]
  have st: "?w2 =
     \<lparr>gctx_err = Some Canceled, g_err = Some (Wrap ''writer DDL'' (External 3)),
      rd = \<lparr>phase = AtCheck, round_i = 0, spawn_j = 0, pending = 0, grp_err = None,
            started = 0, returned = 0, cleared = []\<rparr>,
      wr = \<lparr>phase = Finished (Some (Wrap ''writer DDL'' (External 3))), round_i = 0,
            spawn_j = 0, pending = 0, grp_err = None, started = 0, returned = 0, cleared = []\<rparr>,
      wlog = [LogStarted Writer, LogEnsuringTable, LogStarted Reader]\<rparr>"
    unfolding ddl_state by (simp add: sample_cfg_eq eval_defs)
  have it: "sint (Iterations sample_cfg) = 1000" by (simp add: sample_cfg_eq)
  have hyp: "phase (rd ?w2) = AtCheck \<and> int (round_i (rd ?w2)) < sint (Iterations sample_cfg)"
    unfolding st by (simp add: it)
  from r hyp have t0: "phase (rd (step sample_cfg ?w2 (Tick Reader))) = Finished (gctx_err ?w2)"
    by blast
  have gc: "gctx_err ?w2 = Some Canceled" unfolding st by simp
  have t: "phase (rd (step sample_cfg ?w2 (Tick Reader))) = Finished (Some Canceled)"
    by (simp only: t0 gc)
  have fin: "phase (get_stream Writer ?w2) = Finished (Some (Wrap ''writer DDL'' (External 3)))"
    unfolding st by simp
  from r fin have "ctx_error (Wrap ''writer DDL'' (External 3)) \<or>
      (Writer = Writer \<and> is_ddl_error (Wrap ''writer DDL'' (External 3)))"
    by blast
  then have dd: "is_ddl_error (Wrap ''writer DDL'' (External 3))"
    by (simp add: ctx_error_def)
  show ?thesis unfolding w2 by (intro conjI ph st t dd)
qed

end
